theory Spec2Isabelle
  imports Main
begin

section \<open>Python values\<close>

text \<open>
  A Python \<open>str\<close> is a sequence of Unicode code points, so it is modelled as a list of
  code points. \<open>lit\<close> turns an ASCII literal of the source into such a list.
\<close>

type_synonym pystr = "nat list"

definition lit :: "string \<Rightarrow> pystr" where
  "lit s = map of_char s"

section \<open>The link builder (generate\_qr.py, lines 55--62)\<close>

text \<open>
  The default body of line 57--59. The three adjacent literals are concatenated by the
  Python parser; the accented letters are U+00E9 (e acute) and U+00E0 (a grave).
\<close>

definition DEFAULT_BODY :: pystr where
  "DEFAULT_BODY =
     lit ''Je suis int'' @ [0xE9] @ lit ''ress'' @ [0xE9] @ lit ''(e) '' @ [0xE0] @
     lit '' participer '' @ [0xE0] @ lit '' votre '' @ [0xE9] @ lit ''tude. '' @
     lit ''Vous pouvez me contacter '' @ [0xE0] @ lit '' cette adresse e-mail ou '' @
     lit ''m'' @ [0x27] @ lit ''appeler au [votre num'' @ [0xE9] @ lit ''ro].''"

text \<open>
  \<open>body\<close> is \<open>None\<close> when the caller omits it or passes \<open>None\<close> (the parameter's default).
  Line 56 tests \<open>body is None\<close>, line 62 is the f-string.
\<close>

definition email_link :: "pystr \<Rightarrow> pystr \<Rightarrow> pystr option \<Rightarrow> pystr" where
  "email_link email subject body =
     (let body = (case body of None \<Rightarrow> DEFAULT_BODY | Some b \<Rightarrow> b)
      in lit ''mailto:'' @ email @ lit ''?subject='' @ subject @ lit ''&body='' @ body)"

section \<open>Exceptions and images\<close>

text \<open>
  The exceptions the libraries can raise into \<open>generate_qr_code\<close>. The handler on line 93
  names \<open>FileNotFoundError\<close>, which has no subclass among them.
\<close>

datatype exc =
    FileNotFoundError
  | PermissionError
  | UnidentifiedImageError
  | OSError
  | ValueError
  | UnicodeEncodeError
  | DataOverflowError
  | OtherException string

text \<open>
  A Pillow image: its \<open>size\<close> attribute (width, height), its \<open>mode\<close> and its pixels
  (band values at a coordinate).
\<close>

type_synonym pixel = "nat list"

record image =
  im_size :: "int \<times> int"
  im_mode :: string
  im_px :: "int \<times> int \<Rightarrow> pixel"

section \<open>The qrcode package, as far as the program drives it\<close>

text \<open>
  The package is imported on line 1 and is not part of the repository. The definitions of
  this section follow its modules \<open>main.py\<close> and \<open>util.py\<close>: the constructor, \<open>add_data\<close>,
  \<open>best_fit\<close>, \<open>make\<close> and \<open>make_image\<close> of the class \<open>QRCode\<close>, with the functions and
  tables they use. How the modules of a symbol are laid out (error correction codewords,
  masking) is left to the environment: no property below reads a pixel of the QR code.
\<close>

datatype ec_level = ERROR_CORRECT_L | ERROR_CORRECT_M | ERROR_CORRECT_Q | ERROR_CORRECT_H

datatype qr_mode = MODE_NUMBER | MODE_ALPHA_NUM | MODE_8BIT_BYTE

datatype size_class = MODE_SIZE_SMALL | MODE_SIZE_MEDIUM | MODE_SIZE_LARGE

record QRData =
  qd_mode :: qr_mode
  qd_data :: "nat list"

record QRCode =
  version :: "nat option"
  error_correction :: ec_level
  box_size :: nat
  border :: nat
  data_list :: "QRData list"

subsection \<open>util.to\_bytestring: UTF-8 encoding of a str\<close>

definition utf8_char :: "nat \<Rightarrow> exc + nat list" where
  "utf8_char c =
     (if c < 0x80 then Inr [c]
      else if c < 0x800 then Inr [0xC0 + c div 64, 0x80 + c mod 64]
      else if 0xD800 \<le> c \<and> c \<le> 0xDFFF then Inl UnicodeEncodeError
      else if c < 0x10000 then
        Inr [0xE0 + c div 4096, 0x80 + (c div 64) mod 64, 0x80 + c mod 64]
      else Inr [0xF0 + c div 262144, 0x80 + (c div 4096) mod 64,
                0x80 + (c div 64) mod 64, 0x80 + c mod 64])"

fun to_bytestring :: "pystr \<Rightarrow> exc + nat list" where
  "to_bytestring [] = Inr []"
| "to_bytestring (c # cs) =
     (case utf8_char c of
        Inl e \<Rightarrow> Inl e
      | Inr bs \<Rightarrow> (case to_bytestring cs of Inl e \<Rightarrow> Inl e | Inr rest \<Rightarrow> Inr (bs @ rest)))"

subsection \<open>util.optimal\_data\_chunks\<close>

definition ALPHA_NUM :: "nat list" where
  "ALPHA_NUM = lit ''0123456789ABCDEFGHIJKLMNOPQRSTUVWXYZ $%*+-./:''"

definition is_num :: "nat \<Rightarrow> bool" where
  "is_num b = (48 \<le> b \<and> b \<le> 57)"

definition is_alpha_num :: "nat \<Rightarrow> bool" where
  "is_alpha_num b = (b \<in> set ALPHA_NUM)"

text \<open>
  \<open>re.search\<close> for the pattern \<open>c{n,}\<close> of a character class \<open>c\<close>: the leftmost place
  where at least \<open>n\<close> bytes of the class start, matched greedily. The result is
  \<open>(match.start(), match.end())\<close>.
\<close>

fun search_repeat :: "(nat \<Rightarrow> bool) \<Rightarrow> nat \<Rightarrow> nat list \<Rightarrow> (nat \<times> nat) option" where
  "search_repeat c n [] = None"
| "search_repeat c n (x # xs) =
     (let k = length (takeWhile c (x # xs))
      in if n \<le> k then Some (0, k)
         else map_option (\<lambda>(s, e). (Suc s, Suc e)) (search_repeat c n xs))"

text \<open>
  \<open>re.search\<close> for the anchored pattern \<open>^c+$\<close>, used when the data is no longer than
  the minimum: \<open>$\<close> also matches before one final newline.
\<close>

definition search_whole :: "(nat \<Rightarrow> bool) \<Rightarrow> nat list \<Rightarrow> (nat \<times> nat) option" where
  "search_whole c xs =
     (let k = length (takeWhile c xs); rest = dropWhile c xs
      in if 0 < k \<and> (rest = [] \<or> rest = [10]) then Some (0, k) else None)"

datatype pattern = Repeat nat | Whole

definition re_search :: "pattern \<Rightarrow> (nat \<Rightarrow> bool) \<Rightarrow> nat list \<Rightarrow> (nat \<times> nat) option" where
  "re_search pat c xs =
     (case pat of Repeat n \<Rightarrow> (if n = 0 then None else search_repeat c n xs)
      | Whole \<Rightarrow> search_whole c xs)"

lemma search_repeat_end:
  "search_repeat c n xs = Some (s, e) \<Longrightarrow> 0 < n \<Longrightarrow> s < e \<and> e \<le> length xs"
proof (induction xs arbitrary: s e)
  case Nil
  then show ?case by simp
next
  case (Cons x xs)
  show ?case
  proof (cases "n \<le> length (takeWhile c (x # xs))")
    case True
    with Cons.prems(1) have "s = 0 \<and> e = length (takeWhile c (x # xs))"
      by (simp add: Let_def del: takeWhile.simps)
    moreover have "length (takeWhile c (x # xs)) \<le> length (x # xs)"
      by (rule length_takeWhile_le)
    ultimately show ?thesis
      using True Cons.prems(2) by linarith
  next
    case False
    with Cons.prems(1) obtain s' e' where
      r: "search_repeat c n xs = Some (s', e')" and se: "s = Suc s'" "e = Suc e'"
      by (auto simp add: Let_def simp del: takeWhile.simps)
    from Cons.IH [OF r Cons.prems(2)] se show ?thesis by simp
  qed
qed

lemma re_search_end: "re_search pat c xs = Some (s, e) \<Longrightarrow> s < e \<and> e \<le> length xs"
proof (cases pat)
  case (Repeat n)
  assume "re_search pat c xs = Some (s, e)"
  with Repeat show ?thesis
    using search_repeat_end [of c n xs s e] by (simp add: re_search_def split: if_splits)
next
  case Whole
  assume "re_search pat c xs = Some (s, e)"
  with Whole show ?thesis
    using length_takeWhile_le [of c xs]
    by (auto simp: re_search_def search_whole_def Let_def split: if_splits)
qed

text \<open>
  \<open>util._optimal_split\<close>: the loop cuts the data at each match and yields the text before
  the match (when there is some) with \<open>False\<close> and the match with \<open>True\<close>; what is left
  after the last match is yielded with \<open>False\<close>.
\<close>

function optimal_split :: "pattern \<Rightarrow> (nat \<Rightarrow> bool) \<Rightarrow> nat list \<Rightarrow> (bool \<times> nat list) list" where
  "optimal_split pat c data =
     (if data = [] then []
      else case re_search pat c data of
             None \<Rightarrow> [(False, data)]
           | Some (s, e) \<Rightarrow>
               (if 0 < s then [(False, take s data)] else []) @
               (True, take (e - s) (drop s data)) # optimal_split pat c (drop e data))"
  by pat_completeness auto
termination
proof (relation "measure (\<lambda>(pat, c, data). length data)")
  show "wf (measure (\<lambda>(pat, c, data). length data))" by simp
next
  fix pat :: pattern and c :: "nat \<Rightarrow> bool" and data :: "nat list" and x2 x y
  assume "data \<noteq> []" "re_search pat c data = Some x2" "(x, y) = x2"
  then have "re_search pat c data = Some (x, y)" by simp
  from re_search_end [OF this] have "length data - y < length data"
    by arith
  then show "((pat, c, drop y data), pat, c, data) \<in> measure (\<lambda>(pat, c, data). length data)"
    by simp
qed

declare optimal_split.simps [simp del]

text \<open>
  \<open>optimal_data_chunks(data, minimum)\<close>: runs of digits become numeric chunks, and in the
  rest runs of the alphanumeric set become alphanumeric chunks; everything else is byte
  data. Runs count only from \<open>minimum\<close> bytes on, unless the whole data is that short.
\<close>

definition alpha_chunks :: "pattern \<Rightarrow> nat list \<Rightarrow> QRData list" where
  "alpha_chunks pat chunk =
     map (\<lambda>(is_alpha, sub_chunk).
            \<lparr>qd_mode = (if is_alpha then MODE_ALPHA_NUM else MODE_8BIT_BYTE), qd_data = sub_chunk\<rparr>)
         (optimal_split pat is_alpha_num chunk)"

definition optimal_data_chunks :: "nat list \<Rightarrow> nat \<Rightarrow> QRData list" where
  "optimal_data_chunks data minimum =
     (let pat = (if length data \<le> minimum then Whole else Repeat minimum)
      in concat (map (\<lambda>(is_number, chunk).
                        if is_number then [\<lparr>qd_mode = MODE_NUMBER, qd_data = chunk\<rparr>]
                        else alpha_chunks pat chunk)
                     (optimal_split pat is_num data)))"

subsection \<open>Bit counts and capacities\<close>

definition mode_sizes_for_version :: "nat \<Rightarrow> size_class" where
  "mode_sizes_for_version v =
     (if v < 10 then MODE_SIZE_SMALL else if v < 27 then MODE_SIZE_MEDIUM else MODE_SIZE_LARGE)"

fun mode_size :: "size_class \<Rightarrow> qr_mode \<Rightarrow> nat" where
  "mode_size MODE_SIZE_SMALL MODE_NUMBER = 10"
| "mode_size MODE_SIZE_SMALL MODE_ALPHA_NUM = 9"
| "mode_size MODE_SIZE_SMALL MODE_8BIT_BYTE = 8"
| "mode_size MODE_SIZE_MEDIUM MODE_NUMBER = 12"
| "mode_size MODE_SIZE_MEDIUM MODE_ALPHA_NUM = 11"
| "mode_size MODE_SIZE_MEDIUM MODE_8BIT_BYTE = 16"
| "mode_size MODE_SIZE_LARGE MODE_NUMBER = 14"
| "mode_size MODE_SIZE_LARGE MODE_ALPHA_NUM = 13"
| "mode_size MODE_SIZE_LARGE MODE_8BIT_BYTE = 16"

text \<open>\<open>QRData.write\<close>: the number of bits a chunk's data takes in its mode.\<close>

fun data_bits :: "qr_mode \<Rightarrow> nat \<Rightarrow> nat" where
  "data_bits MODE_NUMBER n =
     10 * (n div 3) + (if n mod 3 = 2 then 7 else if n mod 3 = 1 then 4 else 0)"
| "data_bits MODE_ALPHA_NUM n = 11 * (n div 2) + 6 * (n mod 2)"
| "data_bits MODE_8BIT_BYTE n = 8 * n"

text \<open>
  The buffer that \<open>best_fit\<close> and \<open>create_data\<close> fill: per chunk four bits of mode, the
  length field of the version's size class, and the data.
\<close>

definition needed_bits :: "size_class \<Rightarrow> QRData list \<Rightarrow> nat" where
  "needed_bits sizes dl =
     sum_list (map (\<lambda>d. 4 + mode_size sizes (qd_mode d) +
                         data_bits (qd_mode d) (length (qd_data d))) dl)"

text \<open>
  The number of data codewords of versions 1 to 40 at level H (ISO/IEC 18004), from
  which row H of \<open>BIT_LIMIT_TABLE\<close> is computed: index 0 holds 0, index \<open>v\<close> eight times
  the data codewords of version \<open>v\<close>.
\<close>

definition DATA_CODEWORDS_H :: "nat list" where
  "DATA_CODEWORDS_H =
     [9, 16, 26, 36, 46, 60, 66, 86, 100, 122,
      140, 158, 180, 197, 223, 253, 283, 313, 341, 385,
      406, 442, 464, 514, 538, 596, 628, 661, 701, 745,
      793, 845, 901, 961, 986, 1054, 1096, 1142, 1222, 1276]"

definition BIT_LIMIT_TABLE_H :: "nat list" where
  "BIT_LIMIT_TABLE_H = 0 # map (\<lambda>n. 8 * n) DATA_CODEWORDS_H"

text \<open>
  \<open>bisect_left(a, x, lo)\<close> on an ascending list: the first index from \<open>lo\<close> on whose entry
  is not below \<open>x\<close>, or the length of the list.
\<close>

definition bisect_left :: "nat list \<Rightarrow> nat \<Rightarrow> nat \<Rightarrow> nat" where
  "bisect_left a x lo = lo + length (takeWhile (\<lambda>y. y < x) (drop lo a))"

subsection \<open>The environment of a run\<close>

text \<open>
  What a run takes from outside the program: the rows of the capacity table that level H
  does not use, the pixels the libraries compute, the content of the file system when the
  logo is opened, and whether a Pillow call fails (\<open>None\<close>: it does not). A failing
  \<open>save\<close> comes with a flag: whether Pillow had already opened the target for writing
  when the exception was raised.
\<close>

record platform =
  other_bit_limits :: "ec_level \<Rightarrow> nat list"
  qr_pixels :: "QRCode \<Rightarrow> string \<Rightarrow> string \<Rightarrow> int \<times> int \<Rightarrow> pixel"
  convert_px :: "string \<Rightarrow> string \<Rightarrow> pixel \<Rightarrow> pixel"
  file_open :: "pystr \<Rightarrow> exc + image"
  resample :: "image \<Rightarrow> int \<times> int \<Rightarrow> int \<times> int \<Rightarrow> pixel"
  resize_fault :: "image \<Rightarrow> int \<times> int \<Rightarrow> exc option"
  paste_fault :: "image \<Rightarrow> image \<Rightarrow> int \<times> int \<Rightarrow> exc option"
  save_fault :: "image \<Rightarrow> pystr \<Rightarrow> (exc \<times> bool) option"
  show_fault :: "image \<Rightarrow> exc option"

definition bit_limit_table :: "platform \<Rightarrow> ec_level \<Rightarrow> nat list" where
  "bit_limit_table p ec =
     (case ec of ERROR_CORRECT_H \<Rightarrow> BIT_LIMIT_TABLE_H | _ \<Rightarrow> other_bit_limits p ec)"

subsection \<open>QRCode: the constructor, add\_data, best\_fit, make, make\_image\<close>

definition QRCode_init :: "nat option \<Rightarrow> ec_level \<Rightarrow> nat \<Rightarrow> nat \<Rightarrow> exc + QRCode" where
  "QRCode_init v ec bs bd =
     (if bs = 0 then Inl ValueError
      else if (case v of None \<Rightarrow> False | Some n \<Rightarrow> n < 1 \<or> 40 < n) then Inl ValueError
      else Inr \<lparr>version = v, error_correction = ec, box_size = bs, border = bd, data_list = []\<rparr>)"

text \<open>\<open>add_data(data)\<close> with its default \<open>optimize=20\<close>.\<close>

definition add_data :: "QRCode \<Rightarrow> pystr \<Rightarrow> exc + QRCode" where
  "add_data qr data =
     (case to_bytestring data of
        Inl e \<Rightarrow> Inl e
      | Inr bs \<Rightarrow> Inr (qr\<lparr>data_list := data_list qr @ optimal_data_chunks bs 20\<rparr>))"

text \<open>
  \<open>best_fit(start)\<close>: the bits are counted with the length fields of the start version,
  the table is searched from the start version on, and when the version found has other
  length fields the search starts again from it. The result is the new \<open>self.version\<close>.
  The search result is assigned to \<open>self.version\<close>, whose setter checks the range 1 to 40
  and raises \<open>ValueError\<close> outside it; so when nothing fits and \<open>bisect_left\<close> gives 41, the
  setter raises before the test \<open>self.version == 41\<close> that would raise
  \<open>DataOverflowError\<close> is reached.
\<close>

function best_fit :: "nat list \<Rightarrow> QRData list \<Rightarrow> nat \<Rightarrow> exc + nat" where
  "best_fit table dl start =
     (if start < 1 \<or> 40 < start then Inl ValueError
      else if bisect_left table (needed_bits (mode_sizes_for_version start) dl) start < 1 \<or>
              40 < bisect_left table (needed_bits (mode_sizes_for_version start) dl) start
        then Inl ValueError
      else if bisect_left table (needed_bits (mode_sizes_for_version start) dl) start = 41
        then Inl DataOverflowError
      else if mode_sizes_for_version
                (bisect_left table (needed_bits (mode_sizes_for_version start) dl) start)
              \<noteq> mode_sizes_for_version start
        then best_fit table dl
               (bisect_left table (needed_bits (mode_sizes_for_version start) dl) start)
      else Inr (bisect_left table (needed_bits (mode_sizes_for_version start) dl) start))"
  by pat_completeness auto
termination
proof (relation "measure (\<lambda>(table, dl, start). 41 - start)")
  show "wf (measure (\<lambda>(table, dl, start). 41 - start))" by simp
next
  fix table :: "nat list" and dl :: "QRData list" and start :: nat
  let ?v = "bisect_left table (needed_bits (mode_sizes_for_version start) dl) start"
  assume a: "\<not> (start < 1 \<or> 40 < start)"
    and b: "mode_sizes_for_version ?v \<noteq> mode_sizes_for_version start"
  have "start \<le> ?v" by (simp add: bisect_left_def)
  moreover from b have "?v \<noteq> start" by auto
  ultimately have "41 - ?v < 41 - start" using a by arith
  then show "((table, dl, ?v), table, dl, start) \<in> measure (\<lambda>(table, dl, start). 41 - start)"
    by simp
qed

declare best_fit.simps [simp del]

text \<open>
  \<open>QRCode.make(fit)\<close>, here \<open>qr_make\<close>: \<open>best_fit\<close> runs when \<open>fit\<close> is true or no version
  was given; then the data is laid out at the version (\<open>create_data\<close> raises when it has
  more bits than the version holds) and the module count is the version's.
\<close>

definition qr_make :: "platform \<Rightarrow> QRCode \<Rightarrow> bool \<Rightarrow> exc + QRCode" where
  "qr_make p qr fit =
     (let table = bit_limit_table p (error_correction qr);
          fitted = (case version qr of
                      None \<Rightarrow> best_fit table (data_list qr) 1
                    | Some v \<Rightarrow> if fit then best_fit table (data_list qr) v else Inr v)
      in case fitted of
           Inl e \<Rightarrow> Inl e
         | Inr v \<Rightarrow>
             if table ! v < needed_bits (mode_sizes_for_version v) (data_list qr)
             then Inl DataOverflowError
             else Inr (qr\<lparr>version := Some v\<rparr>))"

definition modules_count :: "QRCode \<Rightarrow> nat" where
  "modules_count qr = (case version qr of None \<Rightarrow> 0 | Some v \<Rightarrow> v * 4 + 17)"

text \<open>
  \<open>make_image(fill_color, back_color)\<close> of a code that \<open>qr_make\<close> has laid out: a square
  Pillow image of \<open>(modules_count + 2 * border) * box_size\<close> pixels a side, whose mode
  follows from the colours.
\<close>

definition pixel_size :: "QRCode \<Rightarrow> nat" where
  "pixel_size qr = (modules_count qr + border qr * 2) * box_size qr"

definition make_image :: "platform \<Rightarrow> QRCode \<Rightarrow> string \<Rightarrow> string \<Rightarrow> image" where
  "make_image p qr fill_color back_color =
     \<lparr>im_size = (int (pixel_size qr), int (pixel_size qr)),
      im_mode = (if fill_color = ''black'' \<and> back_color = ''white'' then ''1''
                 else if back_color = ''transparent'' then ''RGBA'' else ''RGB''),
      im_px = qr_pixels p qr fill_color back_color\<rparr>"

section \<open>Pillow, as far as the program drives it\<close>

text \<open>
  Pillow is imported on line 2 and is not part of the repository. Each call is modelled by
  what the library documents of its result; the resampled and converted pixels, the file
  behind a path and whether a call raises are left to the environment.
\<close>

text \<open>\<open>Image.convert(mode)\<close>: a copy in the given mode, of the same size.\<close>

definition convert :: "platform \<Rightarrow> image \<Rightarrow> string \<Rightarrow> image" where
  "convert p img mode =
     \<lparr>im_size = im_size img, im_mode = mode,
      im_px = (\<lambda>xy. convert_px p (im_mode img) mode (im_px img xy))\<rparr>"

text \<open>\<open>Image.open(path)\<close> reads the file system.\<close>

definition image_open :: "platform \<Rightarrow> pystr \<Rightarrow> exc + image" where
  "image_open p path = file_open p path"

text \<open>\<open>Image.resize(size)\<close>: a resampled copy that has exactly the requested size.\<close>

definition resize :: "platform \<Rightarrow> image \<Rightarrow> int \<times> int \<Rightarrow> exc + image" where
  "resize p img sz =
     (case resize_fault p img sz of
        Some e \<Rightarrow> Inl e
      | None \<Rightarrow> Inr \<lparr>im_size = sz, im_mode = im_mode img, im_px = resample p img sz\<rparr>)"

text \<open>
  \<open>Image.paste(im, box)\<close> with a 2-tuple \<open>box\<close> (the upper left corner) and no mask: the
  pixels of the region the source covers are overwritten with the source's, converted to
  the destination's mode; the destination keeps its size and mode. The method changes the
  image in place; the model returns the changed image.
\<close>

definition paste :: "platform \<Rightarrow> image \<Rightarrow> image \<Rightarrow> int \<times> int \<Rightarrow> exc + image" where
  "paste p dst src box =
     (case paste_fault p dst src box of
        Some e \<Rightarrow> Inl e
      | None \<Rightarrow>
          Inr (dst\<lparr>im_px := (\<lambda>(x, y).
                 if fst box \<le> x \<and> x < fst box + fst (im_size src) \<and>
                    snd box \<le> y \<and> y < snd box + snd (im_size src)
                 then convert_px p (im_mode src) (im_mode dst)
                        (im_px src (x - fst box, y - snd box))
                 else im_px dst (x, y))\<rparr>))"

section \<open>The world a run acts on\<close>

text \<open>
  The image files of the file system and, in order, every call the program makes to the
  libraries and to \<open>print\<close>. A call is recorded when it is made, whether or not it then
  raises.
\<close>

datatype event =
    QRCodeCall "nat option" ec_level nat nat
  | AddDataCall pystr
  | MakeCall bool
  | MakeImageCall string string
  | ConvertCall string
  | OpenCall pystr
  | ResizeCall "int \<times> int"
  | PasteCall "int \<times> int"
  | SaveCall pystr image
  | ShowCall image
  | PrintCall pystr

record world =
  files :: "pystr \<rightharpoonup> image"
  events :: "event list"

definition emit :: "event \<Rightarrow> world \<Rightarrow> world" where
  "emit ev w = w\<lparr>events := events w @ [ev]\<rparr>"

text \<open>
  \<open>files\<close> maps a path to the image it holds when the file there is a complete image file.
  \<open>Image.save(path)\<close> finds the format from the name, opens the target for writing
  (\<open>w+b\<close>, which empties a file that exists) and then encodes. A save that raises before
  the target is opened leaves the files as they are; one that raises afterwards leaves no
  complete image at the path (an emptied or partly written file, or none). \<open>Image.show()\<close>
  writes nothing.
\<close>

definition image_save :: "platform \<Rightarrow> image \<Rightarrow> pystr \<Rightarrow> world \<Rightarrow> exc \<times> world + world" where
  "image_save p img path w =
     (case save_fault p img path of
        Some (e, opened) \<Rightarrow>
          Inl (e, if opened then w\<lparr>files := (files w)(path := None)\<rparr> else w)
      | None \<Rightarrow> Inr (w\<lparr>files := (files w)(path \<mapsto> img)\<rparr>))"

definition image_show :: "platform \<Rightarrow> image \<Rightarrow> exc + unit" where
  "image_show p img = (case show_fault p img of Some e \<Rightarrow> Inl e | None \<Rightarrow> Inr ())"

section \<open>generate\_qr\_code (generate\_qr.py, lines 37--99)\<close>

datatype outcome = Returned | Raised exc

text \<open>
  The value of the parameter \<open>output_file\<close> inside the function (line 37), and the two
  messages of lines 94 and 99.
\<close>

definition output_path :: "pystr option \<Rightarrow> pystr" where
  "output_path output_file =
     (case output_file of None \<Rightarrow> lit ''email_qr.png'' | Some f \<Rightarrow> f)"

definition logo_notice :: pystr where
  "logo_notice = lit ''Logo file not found. Proceeding without a logo.''"

definition saved_message :: "pystr \<Rightarrow> pystr" where
  "saved_message output_file = lit ''QR code saved as '' @ output_file"

text \<open>Lines 65--77: the QR code of the link, rendered blue on white and converted to RGB.\<close>

definition qr_stage :: "platform \<Rightarrow> pystr \<Rightarrow> world \<Rightarrow> (exc + image) \<times> world" where
  "qr_stage p link w =
     (let w1 = emit (QRCodeCall (Some 6) ERROR_CORRECT_H 10 4) w
      in case QRCode_init (Some 6) ERROR_CORRECT_H 10 4 of
           Inl e \<Rightarrow> (Inl e, w1)
         | Inr qr \<Rightarrow>
             (let w2 = emit (AddDataCall link) w1
              in case add_data qr link of
                   Inl e \<Rightarrow> (Inl e, w2)
                 | Inr qr \<Rightarrow>
                     (let w3 = emit (MakeCall True) w2
                      in case qr_make p qr True of
                           Inl e \<Rightarrow> (Inl e, w3)
                         | Inr qr \<Rightarrow>
                             (let w4 = emit (MakeImageCall ''blue'' ''white'') w3;
                                  w5 = emit (ConvertCall ''RGB'') w4
                              in (Inr (convert p (make_image p qr ''blue'' ''white'') ''RGB''),
                                  w5)))))"

text \<open>Lines 81--91: the body of the \<open>try\<close>.\<close>

definition logo_try :: "platform \<Rightarrow> image \<Rightarrow> pystr \<Rightarrow> world \<Rightarrow> (exc + image) \<times> world" where
  "logo_try p qr_img logo_path w =
     (let w1 = emit (OpenCall logo_path) w
      in case image_open p logo_path of
           Inl e \<Rightarrow> (Inl e, w1)
         | Inr logo \<Rightarrow>
             (let max_logo_size = fst (im_size qr_img) div 3;
                  w2 = emit (ResizeCall (max_logo_size, max_logo_size)) w1
              in case resize p logo (max_logo_size, max_logo_size) of
                   Inl e \<Rightarrow> (Inl e, w2)
                 | Inr logo \<Rightarrow>
                     (let pos = ((fst (im_size qr_img) - fst (im_size logo)) div 2,
                                 (snd (im_size qr_img) - snd (im_size logo)) div 2);
                          w3 = emit (PasteCall pos) w2
                      in case paste p qr_img logo pos of
                           Inl e \<Rightarrow> (Inl e, w3)
                         | Inr qr_img \<Rightarrow> (Inr qr_img, w3))))"

text \<open>
  Lines 80--94: the \<open>try\<close> with its handler. An exception leaves \<open>qr_img\<close> as it was before
  the \<open>try\<close>; only \<open>FileNotFoundError\<close> is handled.
\<close>

definition logo_stage :: "platform \<Rightarrow> image \<Rightarrow> pystr \<Rightarrow> world \<Rightarrow> (exc + image) \<times> world" where
  "logo_stage p qr_img logo_path w =
     (case logo_try p qr_img logo_path w of
        (Inr img, w') \<Rightarrow> (Inr img, w')
      | (Inl e, w') \<Rightarrow>
          if e = FileNotFoundError
          then (Inr qr_img, emit (PrintCall logo_notice) w')
          else (Inl e, w'))"

text \<open>Lines 96--99: save, show, print.\<close>

definition output_stage :: "platform \<Rightarrow> image \<Rightarrow> pystr \<Rightarrow> world \<Rightarrow> outcome \<times> world" where
  "output_stage p qr_img output_file w =
     (let w1 = emit (SaveCall output_file qr_img) w
      in case image_save p qr_img output_file w1 of
           Inl (e, w2) \<Rightarrow> (Raised e, w2)
         | Inr w2 \<Rightarrow>
             (let w3 = emit (ShowCall qr_img) w2
              in case image_show p qr_img of
                   Inl e \<Rightarrow> (Raised e, w3)
                 | Inr u \<Rightarrow>
                     (Returned, emit (PrintCall (saved_message output_file)) w3)))"

text \<open>
  The function. \<open>body\<close> and \<open>output_file\<close> are \<open>None\<close> when the caller leaves them out;
  \<open>output_file\<close> then takes the default of line 37.
\<close>

definition generate_qr_code ::
  "platform \<Rightarrow> pystr \<Rightarrow> pystr \<Rightarrow> pystr \<Rightarrow> pystr option \<Rightarrow> pystr option \<Rightarrow> world
     \<Rightarrow> outcome \<times> world" where
  "generate_qr_code p email subject logo_path body output_file w =
     (let output_file = output_path output_file
      in case qr_stage p (email_link email subject body) w of
           (Inl e, w1) \<Rightarrow> (Raised e, w1)
         | (Inr qr_img, w1) \<Rightarrow>
             (case logo_stage p qr_img logo_path w1 of
                (Inl e, w2) \<Rightarrow> (Raised e, w2)
              | (Inr qr_img, w2) \<Rightarrow> output_stage p qr_img output_file w2))"

section \<open>Environments and inputs to run in\<close>

text \<open>
  An environment with no logo file at any path and no failing call, and one in which
  every path holds a 200 by 100 image. Pixels are left blank: no run below depends on them.
\<close>

definition quiet_platform :: platform where
  "quiet_platform =
     \<lparr>other_bit_limits = (\<lambda>ec. replicate 41 0),
      qr_pixels = (\<lambda>qr fill back xy. []),
      convert_px = (\<lambda>m m' px. px),
      file_open = (\<lambda>path. Inl FileNotFoundError),
      resample = (\<lambda>img sz xy. []),
      resize_fault = (\<lambda>img sz. None),
      paste_fault = (\<lambda>dst src box. None),
      save_fault = (\<lambda>img path. None),
      show_fault = (\<lambda>img. None)\<rparr>"

definition logo_image :: image where
  "logo_image = \<lparr>im_size = (200, 100), im_mode = ''RGB'', im_px = (\<lambda>xy. [])\<rparr>"

definition logo_platform :: platform where
  "logo_platform = quiet_platform\<lparr>file_open := (\<lambda>path. Inr logo_image)\<rparr>"

definition empty_world :: world where
  "empty_world = \<lparr>files = Map.empty, events = []\<rparr>"

text \<open>
  The link of the call \<open>generate_qr_code("x@y.com", "S", logo, body="B")\<close> and the calls
  into the qrcode package that the run makes.
\<close>

definition short_link :: pystr where
  "short_link = lit ''mailto:x@y.com?subject=S&body=B''"

definition short_calls :: "event list" where
  "short_calls =
     [QRCodeCall (Some 6) ERROR_CORRECT_H 10 4, AddDataCall short_link, MakeCall True,
      MakeImageCall ''blue'' ''white'', ConvertCall ''RGB'']"

text \<open>
  Environments in which the logo file cannot be read as an image, in which the viewer
  fails, in which no logo exists and the output file cannot be created because its
  directory is missing, and in which resizing the logo raises \<open>FileNotFoundError\<close>.
\<close>

definition corrupt_platform :: platform where
  "corrupt_platform = quiet_platform\<lparr>file_open := (\<lambda>path. Inl UnidentifiedImageError)\<rparr>"



definition vanishing_platform :: platform where
  "vanishing_platform = logo_platform\<lparr>resize_fault := (\<lambda>img sz. Some FileNotFoundError)\<rparr>"

section \<open>Notions the properties are stated with\<close>

text \<open>
  The data fits version \<open>v\<close>: laid out with the length fields of version \<open>v\<close> it has no
  more bits than the capacity table gives the version.
\<close>

definition fits_in :: "nat list \<Rightarrow> QRData list \<Rightarrow> nat \<Rightarrow> bool" where
  "fits_in table dl v = (needed_bits (mode_sizes_for_version v) dl \<le> table ! v)"

text \<open>The chunks \<open>add_data\<close> makes of a link (none when the link has no UTF-8 encoding).\<close>

definition payload_chunks :: "pystr \<Rightarrow> QRData list" where
  "payload_chunks link =
     (case to_bytestring link of Inl e \<Rightarrow> [] | Inr bs \<Rightarrow> optimal_data_chunks bs 20)"

text \<open>The QRCode object of lines 65--74 once \<open>make\<close> has settled on version \<open>v\<close>.\<close>

definition made_code :: "pystr \<Rightarrow> nat \<Rightarrow> QRCode" where
  "made_code link v =
     \<lparr>version = Some v, error_correction = ERROR_CORRECT_H, box_size = 10, border = 4,
      data_list = payload_chunks link\<rparr>"

text \<open>The image of line 77 for that object.\<close>

definition qr_image :: "platform \<Rightarrow> pystr \<Rightarrow> nat \<Rightarrow> image" where
  "qr_image p link v = convert p (make_image p (made_code link v) ''blue'' ''white'') ''RGB''"

definition is_qr_call :: "event \<Rightarrow> bool" where
  "is_qr_call ev =
     (case ev of
        QRCodeCall v ec bs bd \<Rightarrow> True
      | AddDataCall d \<Rightarrow> True
      | MakeCall f \<Rightarrow> True
      | MakeImageCall fc bc \<Rightarrow> True
      | ConvertCall m \<Rightarrow> True
      | _ \<Rightarrow> False)"

definition is_save_call :: "event \<Rightarrow> bool" where
  "is_save_call ev = (case ev of SaveCall path img \<Rightarrow> True | _ \<Rightarrow> False)"

text \<open>The events a run has added to those of the world it started in.\<close>

definition new_events :: "world \<Rightarrow> world \<Rightarrow> event list" where
  "new_events w w' = drop (length (events w)) (events w')"

text \<open>
  The 200 by 100 logo resized for the 490 pixel QR image, and that QR image with the
  resized logo pasted at (163, 163).
\<close>

definition small_logo :: image where
  "small_logo =
     \<lparr>im_size = (163, 163), im_mode = ''RGB'',
      im_px = resample logo_platform logo_image (163, 163)\<rparr>"

definition stamped_image :: image where
  "stamped_image =
     (qr_image logo_platform short_link 6)
       \<lparr>im_px := (\<lambda>(x, y).
          if 163 \<le> x \<and> x < 163 + 163 \<and> 163 \<le> y \<and> y < 163 + 163
          then convert_px logo_platform ''RGB'' ''RGB'' (im_px small_logo (x - 163, y - 163))
          else im_px (qr_image logo_platform short_link 6) (x, y))\<rparr>"

text \<open>
  The link of the call \<open>generate_qr_code("a@b.com", "Hi", logo)\<close>, which takes the default
  body, its UTF-8 encoding, and the calls into the qrcode package that the run makes.
\<close>

definition default_link :: pystr where
  "default_link = lit ''mailto:a@b.com?subject=Hi&body='' @ DEFAULT_BODY"

definition default_link_bytes :: "nat list" where
  "default_link_bytes =
     lit ''mailto:a@b.com?subject=Hi&body='' @
     lit ''Je suis int'' @ [0xC3, 0xA9] @ lit ''ress'' @ [0xC3, 0xA9] @ lit ''(e) '' @
     [0xC3, 0xA0] @ lit '' participer '' @ [0xC3, 0xA0] @ lit '' votre '' @ [0xC3, 0xA9] @
     lit ''tude. '' @ lit ''Vous pouvez me contacter '' @ [0xC3, 0xA0] @
     lit '' cette adresse e-mail ou '' @ lit ''m'' @ [0x27] @ lit ''appeler au [votre num'' @
     [0xC3, 0xA9] @ lit ''ro].''"

definition default_calls :: "event list" where
  "default_calls =
     [QRCodeCall (Some 6) ERROR_CORRECT_H 10 4, AddDataCall default_link, MakeCall True,
      MakeImageCall ''blue'' ''white'', ConvertCall ''RGB'']"

text \<open>
  The version \<open>make(fit=True)\<close> settles on when started at version 6 (0 when it raises).
\<close>

definition fitted_version :: "pystr \<Rightarrow> nat" where
  "fitted_version link =
     (case best_fit BIT_LIMIT_TABLE_H (payload_chunks link) 6 of Inl e \<Rightarrow> 0 | Inr v \<Rightarrow> v)"

section \<open>The version search\<close>

lemma bisect_left_ge: "lo \<le> bisect_left a x lo"
  by (simp add: bisect_left_def)

lemma bisect_left_le_length: "lo \<le> length a \<Longrightarrow> bisect_left a x lo \<le> length a"
proof -
  assume lo: "lo \<le> length a"
  have "length (takeWhile (\<lambda>y. y < x) (drop lo a)) \<le> length (drop lo a)"
    by (rule length_takeWhile_le)
  with lo show ?thesis by (simp add: bisect_left_def)
qed

lemma bisect_left_before:
  assumes "lo \<le> u" and "u < bisect_left a x lo"
  shows "a ! u < x"
proof -
  let ?xs = "drop lo a"
  let ?tw = "takeWhile (\<lambda>y. y < x) ?xs"
  from assms have j: "u - lo < length ?tw" by (simp add: bisect_left_def)
  then have "?tw ! (u - lo) \<in> set ?tw" by (rule nth_mem)
  then have "?tw ! (u - lo) < x" by (auto dest: set_takeWhileD)
  moreover from j have "?tw ! (u - lo) = ?xs ! (u - lo)" by (rule takeWhile_nth)
  moreover have "?xs ! (u - lo) = a ! u"
  proof -
    from j have "u - lo < length ?xs"
      using length_takeWhile_le [of "\<lambda>y. y < x" ?xs] by linarith
    then have "lo \<le> length a" by simp
    then show ?thesis using assms(1) by simp
  qed
  ultimately show ?thesis by simp
qed

lemma bisect_left_at:
  assumes "bisect_left a x lo < length a"
  shows "x \<le> a ! bisect_left a x lo"
proof -
  let ?xs = "drop lo a"
  let ?k = "length (takeWhile (\<lambda>y. y < x) ?xs)"
  from assms have k: "?k < length ?xs" by (simp add: bisect_left_def)
  then have "\<not> ?xs ! ?k < x" by (rule nth_length_takeWhile)
  moreover from assms have "?xs ! ?k = a ! (lo + ?k)" by (simp add: bisect_left_def)
  ultimately show ?thesis by (simp add: bisect_left_def)
qed

lemma mode_size_mono:
  "u \<le> v \<Longrightarrow> mode_size (mode_sizes_for_version u) m \<le> mode_size (mode_sizes_for_version v) m"
  by (cases m) (simp_all add: mode_sizes_for_version_def)

lemma needed_bits_mono:
  assumes "u \<le> v"
  shows "needed_bits (mode_sizes_for_version u) dl \<le> needed_bits (mode_sizes_for_version v) dl"
  unfolding needed_bits_def
  by (rule sum_list_mono) (simp add: mode_size_mono [OF assms])


lemma best_fit_Inr:
  "length table = 41 \<Longrightarrow> best_fit table dl start = Inr v \<Longrightarrow>
     start \<le> v \<and> v \<le> 40 \<and> fits_in table dl v \<and>
     (\<forall>u. start \<le> u \<and> u < v \<longrightarrow> \<not> fits_in table dl u)"
proof (induction table dl start rule: best_fit.induct)
  case (1 table dl start)
  let ?x = "needed_bits (mode_sizes_for_version start) dl"
  let ?b = "bisect_left table ?x start"
  from "1.prems"(2) have range: "1 \<le> start" "start \<le> 40"
    by (auto simp: best_fit.simps [of table dl start] split: if_splits)
  from "1.prems"(2) range have b40: "?b \<le> 40" and b1: "1 \<le> ?b"
    by (auto simp: best_fit.simps [of table dl start] split: if_splits)
  then have b41: "?b \<noteq> 41" by simp
  have ge: "start \<le> ?b" by (rule bisect_left_ge)
  have below: "\<not> fits_in table dl u" if "start \<le> u" "u < ?b" for u
  proof -
    from that have "table ! u < ?x" by (rule bisect_left_before)
    also have "?x \<le> needed_bits (mode_sizes_for_version u) dl"
      using that(1) by (rule needed_bits_mono)
    finally show ?thesis by (simp add: fits_in_def)
  qed
  show ?case
  proof (cases "mode_sizes_for_version ?b = mode_sizes_for_version start")
    case True
    with "1.prems"(2) range b40 b1 have v: "v = ?b"
      by (simp add: best_fit.simps [of table dl start])
    have "?x \<le> table ! ?b" using b40 "1.prems"(1) by (intro bisect_left_at) simp
    with True have "fits_in table dl ?b" by (simp add: fits_in_def)
    with v ge b40 below show ?thesis by simp
  next
    case False
    with "1.prems"(2) range b40 b1 have rec: "best_fit table dl ?b = Inr v"
      by (simp add: best_fit.simps [of table dl start])
    have ih: "?b \<le> v \<and> v \<le> 40 \<and> fits_in table dl v \<and>
       (\<forall>u. ?b \<le> u \<and> u < v \<longrightarrow> \<not> fits_in table dl u)"
      using range b40 b1 b41 False "1.prems"(1) rec by (intro "1.IH") auto
    have "\<not> fits_in table dl u" if "start \<le> u" "u < v" for u
      using that below ih by (cases "u < ?b") auto
    with ih ge show ?thesis by auto
  qed
qed

lemma best_fit_Inl:
  "length table = 41 \<Longrightarrow> 1 \<le> start \<Longrightarrow> start \<le> 40 \<Longrightarrow> best_fit table dl start = Inl e \<Longrightarrow>
     e = ValueError \<and> (\<forall>u. start \<le> u \<and> u \<le> 40 \<longrightarrow> \<not> fits_in table dl u)"
proof (induction table dl start rule: best_fit.induct)
  case (1 table dl start)
  let ?x = "needed_bits (mode_sizes_for_version start) dl"
  let ?b = "bisect_left table ?x start"
  have ge: "start \<le> ?b" by (rule bisect_left_ge)
  have ble: "?b \<le> 41" using "1.prems" bisect_left_le_length [of start table ?x] by simp
  have below: "\<not> fits_in table dl u" if "start \<le> u" "u < ?b" for u
  proof -
    from that have "table ! u < ?x" by (rule bisect_left_before)
    also have "?x \<le> needed_bits (mode_sizes_for_version u) dl"
      using that(1) by (rule needed_bits_mono)
    finally show ?thesis by (simp add: fits_in_def)
  qed
  show ?case
  proof (cases "?b = 41")
    case True
    with "1.prems" have "e = ValueError"
      by (simp add: best_fit.simps [of table dl start])
    with True below show ?thesis by auto
  next
    case b41: False
    from b41 ble have b40: "?b \<le> 40" by simp
    from ge "1.prems"(2) have b1: "1 \<le> ?b" by simp
    show ?thesis
    proof (cases "mode_sizes_for_version ?b = mode_sizes_for_version start")
      case True
      with "1.prems" b41 b40 b1 show ?thesis
        by (simp add: best_fit.simps [of table dl start])
    next
      case False
      with "1.prems" b41 b40 b1 have rec: "best_fit table dl ?b = Inl e"
        by (simp add: best_fit.simps [of table dl start])
      have ih: "e = ValueError \<and> (\<forall>u. ?b \<le> u \<and> u \<le> 40 \<longrightarrow> \<not> fits_in table dl u)"
        using "1.prems"(1,2,3) b41 False b40 b1 ge rec by (intro "1.IH") auto
      have "\<not> fits_in table dl u" if "start \<le> u" "u \<le> 40" for u
        using that below ih by (cases "u < ?b") auto
      with ih show ?thesis by simp
    qed
  qed
qed

section \<open>The stages of a run\<close>

lemma table_H_length: "length BIT_LIMIT_TABLE_H = 41"
  by (simp add: BIT_LIMIT_TABLE_H_def DATA_CODEWORDS_H_def)

lemma qr_make_fit_H:
  assumes "version qr = Some start" and "error_correction qr = ERROR_CORRECT_H"
  shows "qr_make p qr True =
     (case best_fit BIT_LIMIT_TABLE_H (data_list qr) start of
        Inl e \<Rightarrow> Inl e
      | Inr v \<Rightarrow> Inr (qr\<lparr>version := Some v\<rparr>))"
proof (cases "best_fit BIT_LIMIT_TABLE_H (data_list qr) start")
  case (Inl e)
  with assms show ?thesis by (simp add: qr_make_def bit_limit_table_def)
next
  case (Inr v)
  from best_fit_Inr [OF table_H_length Inr]
  have "needed_bits (mode_sizes_for_version v) (data_list qr) \<le> BIT_LIMIT_TABLE_H ! v"
    by (simp add: fits_in_def)
  with Inr assms show ?thesis by (simp add: qr_make_def bit_limit_table_def)
qed


lemma qr_stage_eq:
  "qr_stage p link w =
     (case to_bytestring link of
        Inl e \<Rightarrow>
          (Inl e, w\<lparr>events := events w @
             [QRCodeCall (Some 6) ERROR_CORRECT_H 10 4, AddDataCall link]\<rparr>)
      | Inr bs \<Rightarrow>
          (case best_fit BIT_LIMIT_TABLE_H (payload_chunks link) 6 of
             Inl e \<Rightarrow>
               (Inl e, w\<lparr>events := events w @
                  [QRCodeCall (Some 6) ERROR_CORRECT_H 10 4, AddDataCall link, MakeCall True]\<rparr>)
           | Inr v \<Rightarrow>
               (Inr (qr_image p link v),
                w\<lparr>events := events w @
                  [QRCodeCall (Some 6) ERROR_CORRECT_H 10 4, AddDataCall link, MakeCall True,
                   MakeImageCall ''blue'' ''white'', ConvertCall ''RGB'']\<rparr>)))"
proof (cases "to_bytestring link")
  case (Inl e)
  then show ?thesis
    by (simp add: qr_stage_def QRCode_init_def add_data_def emit_def)
next
  case (Inr bs)
  let ?qr = "\<lparr>version = Some 6, error_correction = ERROR_CORRECT_H, box_size = 10, border = 4,
               data_list = optimal_data_chunks bs 20\<rparr>"
  have mk: "qr_make p ?qr True =
     (case best_fit BIT_LIMIT_TABLE_H (optimal_data_chunks bs 20) 6 of
        Inl e \<Rightarrow> Inl e
      | Inr v \<Rightarrow> Inr (?qr\<lparr>version := Some v\<rparr>))"
    using qr_make_fit_H [of ?qr 6 p] by simp
  from Inr have pc: "payload_chunks link = optimal_data_chunks bs 20"
    by (simp add: payload_chunks_def)
  show ?thesis
    using Inr
    by (simp add: qr_stage_def QRCode_init_def add_data_def emit_def mk pc qr_image_def
        made_code_def split: sum.splits)
qed

lemma qr_stage_files: "files (snd (qr_stage p link w)) = files w"
  by (simp add: qr_stage_eq split: sum.splits)

lemma qr_stage_new_events:
  "new_events w (snd (qr_stage p link w)) =
     QRCodeCall (Some 6) ERROR_CORRECT_H 10 4 # AddDataCall link #
     (case to_bytestring link of
        Inl e \<Rightarrow> []
      | Inr bs \<Rightarrow>
          MakeCall True #
          (case best_fit BIT_LIMIT_TABLE_H (payload_chunks link) 6 of
             Inl e \<Rightarrow> []
           | Inr v \<Rightarrow> [MakeImageCall ''blue'' ''white'', ConvertCall ''RGB'']))"
  by (simp add: qr_stage_eq new_events_def split: sum.splits)

lemma new_events_append: "events w' = events w @ xs \<Longrightarrow> new_events w w' = xs"
  by (simp add: new_events_def)

lemma qr_stage_events_append:
  "events (snd (qr_stage p link w)) = events w @ new_events w (snd (qr_stage p link w))"
  by (simp add: qr_stage_eq new_events_def split: sum.splits)

lemma qr_stage_new_events_qr:
  "\<forall>ev \<in> set (new_events w (snd (qr_stage p link w))). is_qr_call ev"
  by (auto simp: qr_stage_new_events is_qr_call_def split: sum.splits)

lemma logo_try_world:
  "snd (logo_try p qr_img logo_path w) =
     w\<lparr>events := events w @ new_events w (snd (logo_try p qr_img logo_path w))\<rparr>
   \<and> (\<forall>ev \<in> set (new_events w (snd (logo_try p qr_img logo_path w))).
         \<not> is_qr_call ev \<and> \<not> is_save_call ev)"
  by (auto simp: logo_try_def emit_def Let_def new_events_def is_qr_call_def is_save_call_def
      split: sum.splits)

lemma logo_stage_world:
  "snd (logo_stage p qr_img logo_path w) =
     w\<lparr>events := events w @ new_events w (snd (logo_stage p qr_img logo_path w))\<rparr>
   \<and> (\<forall>ev \<in> set (new_events w (snd (logo_stage p qr_img logo_path w))).
         \<not> is_qr_call ev \<and> \<not> is_save_call ev)"
proof -
  obtain res w' where t: "logo_try p qr_img logo_path w = (res, w')"
    by (cases "logo_try p qr_img logo_path w")
  with logo_try_world [of p qr_img logo_path w]
  have w': "w' = w\<lparr>events := events w @ new_events w w'\<rparr>"
    and n: "\<forall>ev \<in> set (new_events w w'). \<not> is_qr_call ev \<and> \<not> is_save_call ev"
    by simp_all
  from w' have ev: "events w' = events w @ new_events w w'"
    by (metis world.select_convs(2) world.surjective world.update_convs(2))
  show ?thesis
  proof (cases res)
    case (Inr img)
    with t w' n show ?thesis by (simp add: logo_stage_def)
  next
    case (Inl e)
    show ?thesis
    proof (cases "e = FileNotFoundError")
      case False
      with Inl t w' n show ?thesis by (simp add: logo_stage_def)
    next
      case True
      let ?msg = "PrintCall logo_notice"
      from True Inl t have s: "snd (logo_stage p qr_img logo_path w) = emit ?msg w'"
        by (simp add: logo_stage_def)
      have "events (emit ?msg w') = events w @ (new_events w w' @ [?msg])"
        using ev by (simp add: emit_def)
      then have ne: "new_events w (emit ?msg w') = new_events w w' @ [?msg]"
        by (rule new_events_append)
      have a: "emit ?msg w' = w\<lparr>events := events w @ (new_events w w' @ [?msg])\<rparr>"
        by (subst w') (simp add: emit_def ev [symmetric])
      have b: "emit ?msg w' = w\<lparr>events := events w @ new_events w (emit ?msg w')\<rparr>"
        unfolding ne by (rule a)
      have c: "\<forall>ev \<in> set (new_events w (emit ?msg w')). \<not> is_qr_call ev \<and> \<not> is_save_call ev"
        unfolding ne using n by (simp add: is_qr_call_def is_save_call_def)
      show ?thesis
        unfolding s by (rule conjI) (rule b, rule c)
    qed
  qed
qed

lemma output_stage_events:
  "events (snd (output_stage p img out w)) =
     events w @ new_events w (snd (output_stage p img out w))
   \<and> (\<forall>ev \<in> set (new_events w (snd (output_stage p img out w))). \<not> is_qr_call ev)"
  by (auto simp: output_stage_def emit_def Let_def image_save_def image_show_def new_events_def
      is_qr_call_def split: sum.splits option.splits)

lemma generate_new_events:
  "\<exists>rest. new_events w (snd (generate_qr_code p email subject logo_path body output_file w)) =
            new_events w (snd (qr_stage p (email_link email subject body) w)) @ rest \<and>
          (\<forall>ev \<in> set rest. \<not> is_qr_call ev)"
proof -
  let ?link = "email_link email subject body"
  let ?out = "output_path output_file"
  obtain r1 w1 where q: "qr_stage p ?link w = (r1, w1)" by (cases "qr_stage p ?link w")
  with qr_stage_events_append [of p ?link w]
  have e1: "events w1 = events w @ new_events w w1" by simp
  show ?thesis
  proof (cases r1)
    case (Inl e)
    with q show ?thesis by (simp add: generate_qr_code_def)
  next
    case (Inr qr_img)
    obtain r2 w2 where l: "logo_stage p qr_img logo_path w1 = (r2, w2)"
      by (cases "logo_stage p qr_img logo_path w1")
    with logo_stage_world [of p qr_img logo_path w1]
    have w2: "w2 = w1\<lparr>events := events w1 @ new_events w1 w2\<rparr>"
      and n2: "\<forall>ev \<in> set (new_events w1 w2). \<not> is_qr_call ev"
      by simp_all
    from w2 have e2: "events w2 = events w1 @ new_events w1 w2"
      by (metis world.select_convs(2) world.surjective world.update_convs(2))
    show ?thesis
    proof (cases r2)
      case (Inl e)
      with q Inr l have "snd (generate_qr_code p email subject logo_path body output_file w) = w2"
        by (simp add: generate_qr_code_def)
      moreover have "new_events w w2 = new_events w w1 @ new_events w1 w2"
        using e1 e2 by (intro new_events_append) simp
      ultimately show ?thesis using n2 q by auto
    next
      case img: (Inr img)
      let ?w3 = "snd (output_stage p img ?out w2)"
      from q Inr l img
      have g: "snd (generate_qr_code p email subject logo_path body output_file w) = ?w3"
        by (simp add: generate_qr_code_def)
      from output_stage_events [of p img ?out w2]
      have e3: "events ?w3 = events w2 @ new_events w2 ?w3"
        and n3: "\<forall>ev \<in> set (new_events w2 ?w3). \<not> is_qr_call ev"
        by simp_all
      have "new_events w ?w3 = new_events w w1 @ (new_events w1 w2 @ new_events w2 ?w3)"
        using e1 e2 e3 by (intro new_events_append) simp
      moreover have "\<forall>ev \<in> set (new_events w1 w2 @ new_events w2 ?w3). \<not> is_qr_call ev"
        using n2 n3 by auto
      ultimately show ?thesis using q g by auto
    qed
  qed
qed

lemma generate_qr_calls:
  "filter is_qr_call (new_events w (snd (generate_qr_code p email subject logo_path body output_file w))) =
     new_events w (snd (qr_stage p (email_link email subject body) w))"
proof -
  obtain rest where
    e: "new_events w (snd (generate_qr_code p email subject logo_path body output_file w)) =
            new_events w (snd (qr_stage p (email_link email subject body) w)) @ rest"
    and n: "\<forall>ev \<in> set rest. \<not> is_qr_call ev"
    using generate_new_events by blast
  from n have "filter is_qr_call rest = []" by (simp add: filter_empty_conv)
  moreover have "filter is_qr_call (new_events w (snd (qr_stage p (email_link email subject body) w))) =
     new_events w (snd (qr_stage p (email_link email subject body) w))"
    using qr_stage_new_events_qr by (simp add: filter_id_conv)
  ultimately show ?thesis by (simp add: e)
qed

lemma generate_first_events:
  "take 2 (new_events w (snd (generate_qr_code p email subject logo_path body output_file w))) =
     [QRCodeCall (Some 6) ERROR_CORRECT_H 10 4, AddDataCall (email_link email subject body)]"
proof -
  obtain rest where
    e: "new_events w (snd (generate_qr_code p email subject logo_path body output_file w)) =
            new_events w (snd (qr_stage p (email_link email subject body) w)) @ rest"
    using generate_new_events by blast
  show ?thesis by (simp add: e qr_stage_new_events)
qed

lemma DEFAULT_BODY_nonempty: "DEFAULT_BODY \<noteq> []"
  by (simp add: DEFAULT_BODY_def lit_def)

lemma to_bytestring_Inl: "to_bytestring s = Inl e \<Longrightarrow> e = UnicodeEncodeError"
  by (induction s) (auto simp: utf8_char_def split: if_splits sum.splits)

lemma to_bytestring_ascii: "\<forall>c \<in> set s. c < 128 \<Longrightarrow> to_bytestring s = Inr s"
  by (induction s) (simp_all add: utf8_char_def)

lemma short_link_eq: "email_link (lit ''x@y.com'') (lit ''S'') (Some (lit ''B'')) = short_link"
  by (simp add: email_link_def short_link_def lit_def)

lemma short_link_length: "length short_link = 31"
  by (simp add: short_link_def lit_def)

lemma short_bytes: "to_bytestring short_link = Inr short_link"
  by (rule to_bytestring_ascii) (simp add: short_link_def lit_def)

lemma short_chunks:
  "payload_chunks short_link = [\<lparr>qd_mode = MODE_8BIT_BYTE, qd_data = short_link\<rparr>]"
proof -
  have ne: "short_link \<noteq> []" using short_link_length by auto
  have n: "search_repeat is_num 20 short_link = None"
    by (simp add: short_link_def lit_def is_num_def)
  have al: "search_repeat is_alpha_num 20 short_link = None"
    by (simp add: short_link_def lit_def is_alpha_num_def ALPHA_NUM_def)
  have a: "optimal_split (Repeat 20) is_num short_link = [(False, short_link)]"
    by (subst optimal_split.simps) (simp add: ne re_search_def n)
  have b: "optimal_split (Repeat 20) is_alpha_num short_link = [(False, short_link)]"
    by (subst optimal_split.simps) (simp add: ne re_search_def al)
  show ?thesis
    by (simp add: payload_chunks_def short_bytes optimal_data_chunks_def short_link_length a
        alpha_chunks_def b)
qed

lemma short_fit: "best_fit BIT_LIMIT_TABLE_H (payload_chunks short_link) 6 = Inr 6"
  by (subst best_fit.simps)
    (simp add: short_chunks needed_bits_def short_link_length mode_sizes_for_version_def
      bisect_left_def BIT_LIMIT_TABLE_H_def DATA_CODEWORDS_H_def)

lemma short_stage:
  "qr_stage p short_link w =
     (Inr (qr_image p short_link 6), w\<lparr>events := events w @ short_calls\<rparr>)"
  by (simp add: qr_stage_eq short_bytes short_fit short_calls_def)

lemma is_qr_call_not_save: "is_qr_call ev \<Longrightarrow> \<not> is_save_call ev"
  by (cases ev) (simp_all add: is_qr_call_def is_save_call_def)

lemma qr_stage_no_save:
  "filter is_save_call (new_events w (snd (qr_stage p link w))) = []"
  using qr_stage_new_events_qr [of w p link] is_qr_call_not_save
  by (auto simp: filter_empty_conv)

lemma generate_after_qr:
  assumes "qr_stage p (email_link email subject body) w = (Inr qr_img, w1)"
  shows "generate_qr_code p email subject logo_path body output_file w =
     (case logo_stage p qr_img logo_path w1 of
        (Inl e, w2) \<Rightarrow> (Raised e, w2)
      | (Inr img, w2) \<Rightarrow> output_stage p img (output_path output_file) w2)"
  using assms by (simp add: generate_qr_code_def)

lemma qr_stage_result_world:
  assumes "qr_stage p link w = (r, w1)"
  shows "files w1 = files w" and "events w1 = events w @ new_events w w1"
    and "filter is_save_call (new_events w w1) = []"
  using assms qr_stage_files [of p link w] qr_stage_events_append [of p link w]
    qr_stage_no_save [of w p link] by simp_all

lemma output_stage_eq:
  "output_stage p img out w =
     (case save_fault p img out of
        Some (e, opened) \<Rightarrow>
          (Raised e,
           \<lparr>files = (if opened then (files w)(out := None) else files w),
            events = events w @ [SaveCall out img]\<rparr>)
      | None \<Rightarrow>
          (case show_fault p img of
             Some e \<Rightarrow>
               (Raised e, \<lparr>files = (files w)(out \<mapsto> img),
                          events = events w @ [SaveCall out img, ShowCall img]\<rparr>)
           | None \<Rightarrow>
               (Returned, \<lparr>files = (files w)(out \<mapsto> img),
                          events = events w @ [SaveCall out img, ShowCall img,
                                              PrintCall (saved_message out)]\<rparr>)))"
  by (cases w) (simp add: output_stage_def image_save_def image_show_def emit_def
      split: option.splits)

lemma logo_stage_open_error:
  assumes "image_open p logo_path = Inl e"
  shows "logo_stage p qr_img logo_path w =
     (if e = FileNotFoundError
      then (Inr qr_img, emit (PrintCall logo_notice) (emit (OpenCall logo_path) w))
      else (Inl e, emit (OpenCall logo_path) w))"
  using assms by (simp add: logo_stage_def logo_try_def)

lemma world_events_update:
  "w' = w\<lparr>events := es\<rparr> \<Longrightarrow> files w' = files w \<and> events w' = es"
  by simp

lemma logo_try_open_error:
  assumes "image_open p logo_path = Inl e"
  shows "logo_try p qr_img logo_path w = (Inl e, w\<lparr>events := events w @ [OpenCall logo_path]\<rparr>)"
  using assms by (simp add: logo_try_def emit_def)

lemma logo_try_resize_error:
  assumes "image_open p logo_path = Inr logo"
    and "resize p logo (fst (im_size qr_img) div 3, fst (im_size qr_img) div 3) = Inl e"
  shows "logo_try p qr_img logo_path w =
     (Inl e, w\<lparr>events := events w @
        [OpenCall logo_path,
         ResizeCall (fst (im_size qr_img) div 3, fst (im_size qr_img) div 3)]\<rparr>)"
  using assms by (simp add: logo_try_def emit_def Let_def)

lemma logo_try_paste:
  assumes "image_open p logo_path = Inr logo"
    and "resize p logo (fst (im_size qr_img) div 3, fst (im_size qr_img) div 3) = Inr small"
  shows "logo_try p qr_img logo_path w =
     (paste p qr_img small
        ((fst (im_size qr_img) - fst (im_size small)) div 2,
         (snd (im_size qr_img) - snd (im_size small)) div 2),
      w\<lparr>events := events w @
        [OpenCall logo_path,
         ResizeCall (fst (im_size qr_img) div 3, fst (im_size qr_img) div 3),
         PasteCall ((fst (im_size qr_img) - fst (im_size small)) div 2,
                    (snd (im_size qr_img) - snd (im_size small)) div 2)]\<rparr>)"
  using assms by (simp add: logo_try_def emit_def Let_def split: sum.splits)

lemma logo_stage_of_try:
  assumes "logo_try p qr_img logo_path w = (r, w')"
  shows "logo_stage p qr_img logo_path w =
     (case r of
        Inr img \<Rightarrow> (Inr img, w')
      | Inl e \<Rightarrow> if e = FileNotFoundError then (Inr qr_img, emit (PrintCall logo_notice) w')
                 else (Inl e, w'))"
  using assms by (simp add: logo_stage_def split: sum.splits)

lemma generate_no_save:
  assumes "qr_stage p (email_link email subject body) w = (Inr qr_img, w1)"
    and "logo_stage p qr_img logo_path w1 = (Inl e, w2)"
  shows "generate_qr_code p email subject logo_path body output_file w = (Raised e, w2)"
    and "files w2 = files w"
    and "filter is_save_call (new_events w w2) = []"
proof -
  show "generate_qr_code p email subject logo_path body output_file w = (Raised e, w2)"
    by (simp add: generate_after_qr [OF assms(1)] assms(2))
  from logo_stage_world [of p qr_img logo_path w1] assms(2)
  have w2: "w2 = w1\<lparr>events := events w1 @ new_events w1 w2\<rparr>"
    and n: "\<forall>ev \<in> set (new_events w1 w2). \<not> is_save_call ev"
    by simp_all
  from world_events_update [OF w2]
  have f: "files w2 = files w1" and e2: "events w2 = events w1 @ new_events w1 w2"
    by simp_all
  from f show "files w2 = files w"
    by (simp add: qr_stage_result_world(1) [OF assms(1)])
  have "new_events w w2 = new_events w w1 @ new_events w1 w2"
    using qr_stage_result_world(2) [OF assms(1)] e2 by (intro new_events_append) simp
  with n qr_stage_result_world(3) [OF assms(1)]
  show "filter is_save_call (new_events w w2) = []"
    by (simp add: filter_empty_conv)
qed

lemma qr_image_size:
  "im_size (qr_image p link v) = (int ((v * 4 + 17 + 4 * 2) * 10), int ((v * 4 + 17 + 4 * 2) * 10))"
  "im_mode (qr_image p link v) = ''RGB''"
  by (simp_all add: qr_image_def convert_def make_image_def pixel_size_def modules_count_def
      made_code_def)

lemma resize_Inr:
  "resize p img sz = Inr small \<Longrightarrow>
     small = \<lparr>im_size = sz, im_mode = im_mode img, im_px = resample p img sz\<rparr>"
  by (auto simp: resize_def split: option.splits)

lemma paste_Inr:
  assumes "paste p dst src box = Inr img"
  shows "im_size img = im_size dst" and "im_mode img = im_mode dst"
    and "im_px img (x, y) =
       (if fst box \<le> x \<and> x < fst box + fst (im_size src) \<and>
           snd box \<le> y \<and> y < snd box + snd (im_size src)
        then convert_px p (im_mode src) (im_mode dst) (im_px src (x - fst box, y - snd box))
        else im_px dst (x, y))"
  using assms by (auto simp: paste_def split: option.splits)

lemma logo_stage_keeps_size:
  assumes "logo_stage p qr_img logo_path w = (Inr img, w')"
  shows "im_size img = im_size qr_img \<and> im_mode img = im_mode qr_img"
proof -
  obtain r w1 where t: "logo_try p qr_img logo_path w = (r, w1)"
    by (cases "logo_try p qr_img logo_path w")
  show ?thesis
  proof (cases r)
    case (Inl e)
    with assms t show ?thesis
      by (simp add: logo_stage_of_try [OF t] split: if_splits)
  next
    case (Inr img')
    with assms t have i: "img' = img" by (simp add: logo_stage_of_try [OF t])
    from t Inr i obtain small box where "paste p qr_img small box = Inr img"
      by (auto simp: logo_try_def Let_def split: sum.splits)
    from paste_Inr(1,2) [OF this] show ?thesis by simp
  qed
qed

lemma default_link_eq: "email_link (lit ''a@b.com'') (lit ''Hi'') None = default_link"
  by (simp add: email_link_def default_link_def lit_def)

lemma default_bytes: "to_bytestring default_link = Inr default_link_bytes"
  by (simp add: default_link_def DEFAULT_BODY_def default_link_bytes_def lit_def utf8_char_def)

lemma default_bytes_length: "length default_link_bytes = 166"
  by (simp add: default_link_bytes_def lit_def)

lemma default_chunks:
  "payload_chunks default_link = [\<lparr>qd_mode = MODE_8BIT_BYTE, qd_data = default_link_bytes\<rparr>]"
proof -
  have ne: "default_link_bytes \<noteq> []" using default_bytes_length by auto
  have n: "search_repeat is_num 20 default_link_bytes = None"
    by (simp add: default_link_bytes_def lit_def is_num_def)
  have al: "search_repeat is_alpha_num 20 default_link_bytes = None"
    by (simp add: default_link_bytes_def lit_def is_alpha_num_def ALPHA_NUM_def)
  have a: "optimal_split (Repeat 20) is_num default_link_bytes = [(False, default_link_bytes)]"
    by (subst optimal_split.simps) (simp add: ne re_search_def n)
  have b: "optimal_split (Repeat 20) is_alpha_num default_link_bytes = [(False, default_link_bytes)]"
    by (subst optimal_split.simps) (simp add: ne re_search_def al)
  show ?thesis
    by (simp add: payload_chunks_def default_bytes optimal_data_chunks_def default_bytes_length a
        alpha_chunks_def b)
qed

lemma default_needed_bits:
  "needed_bits MODE_SIZE_SMALL (payload_chunks default_link) = 1340"
  "needed_bits MODE_SIZE_MEDIUM (payload_chunks default_link) = 1348"
  by (simp_all add: default_chunks needed_bits_def default_bytes_length)

lemma default_not_fits_6: "\<not> fits_in BIT_LIMIT_TABLE_H (payload_chunks default_link) 6"
  by (simp add: fits_in_def mode_sizes_for_version_def default_needed_bits
      BIT_LIMIT_TABLE_H_def DATA_CODEWORDS_H_def)

lemma default_fit: "best_fit BIT_LIMIT_TABLE_H (payload_chunks default_link) 6 = Inr 13"
proof -
  have a: "bisect_left BIT_LIMIT_TABLE_H 1340 6 = 13"
    by (simp add: bisect_left_def BIT_LIMIT_TABLE_H_def DATA_CODEWORDS_H_def)
  have b: "bisect_left BIT_LIMIT_TABLE_H 1348 13 = 13"
    by (simp add: bisect_left_def BIT_LIMIT_TABLE_H_def DATA_CODEWORDS_H_def)
  have "best_fit BIT_LIMIT_TABLE_H (payload_chunks default_link) 13 = Inr 13"
    by (subst best_fit.simps) (simp add: mode_sizes_for_version_def default_needed_bits b)
  then show ?thesis
    by (subst best_fit.simps) (simp add: mode_sizes_for_version_def default_needed_bits a)
qed

lemma default_stage:
  "qr_stage p default_link w =
     (Inr (qr_image p default_link 13), w\<lparr>events := events w @ default_calls\<rparr>)"
  by (simp add: qr_stage_eq default_bytes default_fit default_calls_def)

lemma default_run:
  "generate_qr_code quiet_platform (lit ''a@b.com'') (lit ''Hi'') (lit ''missing.png'') None None
     empty_world =
     (Returned,
      \<lparr>files = [lit ''email_qr.png'' \<mapsto> qr_image quiet_platform default_link 13],
       events = default_calls @
         [OpenCall (lit ''missing.png''), PrintCall logo_notice,
          SaveCall (lit ''email_qr.png'') (qr_image quiet_platform default_link 13),
          ShowCall (qr_image quiet_platform default_link 13),
          PrintCall (saved_message (lit ''email_qr.png''))]\<rparr>)"
proof -
  have q: "qr_stage quiet_platform (email_link (lit ''a@b.com'') (lit ''Hi'') None) empty_world =
      (Inr (qr_image quiet_platform default_link 13),
       empty_world\<lparr>events := events empty_world @ default_calls\<rparr>)"
    by (simp only: default_link_eq default_stage)
  have o: "image_open quiet_platform (lit ''missing.png'') = Inl FileNotFoundError"
    by (simp add: image_open_def quiet_platform_def)
  have f: "save_fault quiet_platform img path = None" "show_fault quiet_platform img = None"
    for img path
    by (simp_all add: quiet_platform_def)
  have w: "files empty_world = Map.empty" "events empty_world = []"
    by (simp_all add: empty_world_def)
  show ?thesis
    by (simp add: generate_after_qr [OF q] logo_stage_open_error [OF o] output_stage_eq f
        output_path_def emit_def w)
qed

lemma best_fit_least:
  assumes "6 \<le> v" and "v \<le> 40" and "fits_in BIT_LIMIT_TABLE_H dl v"
    and "\<forall>u. 6 \<le> u \<and> u < v \<longrightarrow> \<not> fits_in BIT_LIMIT_TABLE_H dl u"
  shows "best_fit BIT_LIMIT_TABLE_H dl 6 = Inr v"
proof (cases "best_fit BIT_LIMIT_TABLE_H dl 6")
  case (Inl e)
  from best_fit_Inl [OF table_H_length _ _ Inl] assms(1,2,3) show ?thesis by auto
next
  case (Inr v')
  from best_fit_Inr [OF table_H_length Inr]
  have v': "6 \<le> v'" "fits_in BIT_LIMIT_TABLE_H dl v'"
    "\<forall>u. 6 \<le> u \<and> u < v' \<longrightarrow> \<not> fits_in BIT_LIMIT_TABLE_H dl u"
    by simp_all
  have "\<not> v' < v" using v'(1,2) assms(4) by auto
  moreover have "\<not> v < v'" using v'(3) assms(1,3) by auto
  ultimately show ?thesis using Inr by simp
qed

lemma best_fit_none:
  assumes "\<forall>v. 6 \<le> v \<and> v \<le> 40 \<longrightarrow> \<not> fits_in BIT_LIMIT_TABLE_H dl v"
  shows "best_fit BIT_LIMIT_TABLE_H dl 6 = Inl ValueError"
proof (cases "best_fit BIT_LIMIT_TABLE_H dl 6")
  case (Inl e)
  from best_fit_Inl [OF table_H_length _ _ Inl] show ?thesis using Inl by simp
next
  case (Inr v')
  from best_fit_Inr [OF table_H_length Inr] assms show ?thesis by auto
qed

lemma fitted_version_Inr:
  assumes "best_fit BIT_LIMIT_TABLE_H (payload_chunks link) 6 = Inr v"
  shows "fitted_version link = v"
    and "6 \<le> v" and "v \<le> 40"
    and "fits_in BIT_LIMIT_TABLE_H (payload_chunks link) v"
    and "\<forall>u. 6 \<le> u \<and> u < v \<longrightarrow> \<not> fits_in BIT_LIMIT_TABLE_H (payload_chunks link) u"
  using best_fit_Inr [OF table_H_length assms] assms by (simp_all add: fitted_version_def)

lemma qr_stage_Inr:
  assumes "qr_stage p link w = (Inr qr_img, w1)"
  shows "best_fit BIT_LIMIT_TABLE_H (payload_chunks link) 6 = Inr (fitted_version link)"
    and "qr_img = qr_image p link (fitted_version link)"
  using assms by (auto simp: qr_stage_eq fitted_version_def split: sum.splits)

lemma output_stage_Returned:
  assumes "fst (output_stage p img out w) = Returned"
  shows "files (snd (output_stage p img out w)) out = Some img"
  using assms by (auto simp: output_stage_eq split: option.splits prod.splits)

section \<open>The claims\<close>

text \<open>
  Claim C1. For every email, subject and body the payload is
  \<open>mailto:{email}?subject={subject}&body={body}\<close> with the three strings inserted as they
  are. With no body it ends in the French sentence of lines 57--59, written out below
  (U+00E9 is e with acute accent, U+00E0 is a with grave accent, U+0027 the apostrophe).
  This string is what \<open>generate_qr_code\<close> hands to \<open>add_data\<close>, whatever the strings
  contain.
\<close>

theorem C1_payload_is_the_mailto_template:
  "email_link email subject (Some body) =
     lit ''mailto:'' @ email @ lit ''?subject='' @ subject @ lit ''&body='' @ body
   \<and> email_link email subject None =
     lit ''mailto:'' @ email @ lit ''?subject='' @ subject @ lit ''&body='' @
       (lit ''Je suis int'' @ [0xE9] @ lit ''ress'' @ [0xE9] @ lit ''(e) '' @ [0xE0] @
        lit '' participer '' @ [0xE0] @ lit '' votre '' @ [0xE9] @
        lit ''tude. Vous pouvez me contacter '' @ [0xE0] @
        lit '' cette adresse e-mail ou m'' @ [0x27] @ lit ''appeler au [votre num'' @ [0xE9] @
        lit ''ro].'')
   \<and> new_events w (snd (generate_qr_code p email subject logo_path body_arg output_file w)) ! 1 =
     AddDataCall (email_link email subject body_arg)"
proof -
  have "new_events w (snd (generate_qr_code p email subject logo_path body_arg output_file w)) ! 1 =
     take 2 (new_events w (snd (generate_qr_code p email subject logo_path body_arg output_file w))) ! 1"
    by simp
  also have "\<dots> = AddDataCall (email_link email subject body_arg)"
    by (simp only: generate_first_events) simp
  finally show ?thesis by (simp add: email_link_def DEFAULT_BODY_def lit_def)
qed

text \<open>
  Claim C8. Only \<open>None\<close> brings in the default sentence: an empty body gives a payload that
  ends in \<open>&body=\<close> and differs from the default payload, and every given body is used as
  it is (the payload is the default one only when the body given is the default sentence).
  With the empty body, the string handed to \<open>add_data\<close> ends in \<open>&body=\<close>.
\<close>

theorem C8_empty_body_is_kept:
  "email_link email subject (Some []) =
     lit ''mailto:'' @ email @ lit ''?subject='' @ subject @ lit ''&body=''
   \<and> email_link email subject (Some []) \<noteq> email_link email subject None
   \<and> email_link email subject (Some b) =
     lit ''mailto:'' @ email @ lit ''?subject='' @ subject @ lit ''&body='' @ b
   \<and> (email_link email subject (Some b) = email_link email subject None \<longleftrightarrow> b = DEFAULT_BODY)
   \<and> new_events w (snd (generate_qr_code p email subject logo_path (Some []) output_file w)) ! 1 =
     AddDataCall (lit ''mailto:'' @ email @ lit ''?subject='' @ subject @ lit ''&body='')"
proof -
  have "new_events w (snd (generate_qr_code p email subject logo_path (Some []) output_file w)) ! 1 =
     take 2 (new_events w (snd (generate_qr_code p email subject logo_path (Some []) output_file w))) ! 1"
    by simp
  also have "\<dots> = AddDataCall (email_link email subject (Some []))"
    by (simp only: generate_first_events) simp
  finally show ?thesis
    using DEFAULT_BODY_nonempty by (auto simp: email_link_def)
qed

text \<open>
  Claim C9. The calls into the qrcode package, with their arguments (version, error
  correction, box size, border, the link, the fit flag, the colours, the mode), are the
  same in any two runs with the same email, subject and body, whatever the logo path, the
  output path, the environment and the world the runs start in.
\<close>

theorem C9_qr_calls_are_a_function_of_email_subject_body:
  "filter is_qr_call (new_events w1 (snd (generate_qr_code p1 email subject logo1 body out1 w1))) =
   filter is_qr_call (new_events w2 (snd (generate_qr_code p2 email subject logo2 body out2 w2)))
   \<and> take 2 (filter is_qr_call (new_events w1 (snd (generate_qr_code p1 email subject logo1 body out1 w1)))) =
     [QRCodeCall (Some 6) ERROR_CORRECT_H 10 4, AddDataCall (email_link email subject body)]
   \<and> set (filter is_qr_call (new_events w1 (snd (generate_qr_code p1 email subject logo1 body out1 w1)))) \<subseteq>
     {QRCodeCall (Some 6) ERROR_CORRECT_H 10 4, AddDataCall (email_link email subject body),
      MakeCall True, MakeImageCall ''blue'' ''white'', ConvertCall ''RGB''}"
  by (auto simp: generate_qr_calls qr_stage_new_events split: sum.splits)




text \<open>
  Claim C3. An error other than \<open>FileNotFoundError\<close> raised while the logo is loaded, by
  \<open>Image.open\<close> or when \<open>resize\<close> reads the pixels, is not caught: the run ends with that
  error, and since \<open>save\<close> comes after the \<open>try\<close>, no file is written and \<open>save\<close> is
  never called.
\<close>

theorem C3_other_load_errors_propagate:
  assumes "qr_stage p (email_link email subject body) w = (Inr qr_img, w1)"
    and "e \<noteq> FileNotFoundError"
    and "image_open p logo_path = Inl e
         \<or> (\<exists>logo. image_open p logo_path = Inr logo \<and>
               resize p logo (fst (im_size qr_img) div 3, fst (im_size qr_img) div 3) = Inl e)"
  shows "fst (generate_qr_code p email subject logo_path body output_file w) = Raised e
       \<and> files (snd (generate_qr_code p email subject logo_path body output_file w)) = files w
       \<and> filter is_save_call
           (new_events w (snd (generate_qr_code p email subject logo_path body output_file w))) = []"
proof -
  from assms(3) have "\<exists>w'. logo_try p qr_img logo_path w1 = (Inl e, w')"
  proof (elim disjE exE conjE)
    assume "image_open p logo_path = Inl e"
    from logo_try_open_error [OF this] show ?thesis by blast
  next
    fix logo
    assume "image_open p logo_path = Inr logo"
      and "resize p logo (fst (im_size qr_img) div 3, fst (im_size qr_img) div 3) = Inl e"
    from logo_try_resize_error [OF this] show ?thesis by blast
  qed
  then obtain w' where t: "logo_try p qr_img logo_path w1 = (Inl e, w')" ..
  have l: "logo_stage p qr_img logo_path w1 = (Inl e, w')"
    using assms(2) by (simp add: logo_stage_of_try [OF t])
  show ?thesis
    by (simp add: generate_no_save(1) [OF assms(1) l] generate_no_save(2) [OF assms(1) l]
        generate_no_save(3) [OF assms(1) l])
qed

theorem C3_corrupt_logo_witness:
  "qr_stage corrupt_platform (email_link (lit ''x@y.com'') (lit ''S'') (Some (lit ''B''))) empty_world =
       (Inr (qr_image corrupt_platform short_link 6), empty_world\<lparr>events := events empty_world @ short_calls\<rparr>)
   \<and> UnidentifiedImageError \<noteq> FileNotFoundError
   \<and> image_open corrupt_platform (lit ''logo.png'') = Inl UnidentifiedImageError
   \<and> fst (generate_qr_code corrupt_platform (lit ''x@y.com'') (lit ''S'') (lit ''logo.png'')
             (Some (lit ''B'')) None empty_world) = Raised UnidentifiedImageError
   \<and> files (snd (generate_qr_code corrupt_platform (lit ''x@y.com'') (lit ''S'') (lit ''logo.png'')
             (Some (lit ''B'')) None empty_world)) = files empty_world
   \<and> filter is_save_call (new_events empty_world
        (snd (generate_qr_code corrupt_platform (lit ''x@y.com'') (lit ''S'') (lit ''logo.png'')
             (Some (lit ''B'')) None empty_world))) = []"
proof -
  have h1: "qr_stage corrupt_platform (email_link (lit ''x@y.com'') (lit ''S'') (Some (lit ''B''))) empty_world =
       (Inr (qr_image corrupt_platform short_link 6), empty_world\<lparr>events := events empty_world @ short_calls\<rparr>)"
    by (simp only: short_link_eq short_stage)
  have h2: "UnidentifiedImageError \<noteq> FileNotFoundError" by simp
  have h3: "image_open corrupt_platform (lit ''logo.png'') = Inl UnidentifiedImageError"
    by (simp add: image_open_def corrupt_platform_def)
  note c = C3_other_load_errors_propagate [OF h1 h2 disjI1 [OF h3], where output_file = None]
  show ?thesis
    by (intro conjI h1 h2 h3 c [THEN conjunct1] c [THEN conjunct2, THEN conjunct1]
        c [THEN conjunct2, THEN conjunct2])
qed



text \<open>
  Claim C10. The handler covers the whole \<open>try\<close>: whichever of \<open>Image.open\<close>, \<open>resize\<close>
  and \<open>paste\<close> raises, a \<open>FileNotFoundError\<close> is answered by the notice and the run goes on
  to the output stage with the QR image without a logo, and any other exception ends the
  run with nothing saved. (Computing the offset on line 88 cannot raise.)
\<close>

theorem C10_handler_covers_the_whole_try:
  assumes "qr_stage p (email_link email subject body) w = (Inr qr_img, w1)"
    and "image_open p logo_path = Inl e
         \<or> (\<exists>logo. image_open p logo_path = Inr logo \<and>
               resize p logo (fst (im_size qr_img) div 3, fst (im_size qr_img) div 3) = Inl e)
         \<or> (\<exists>logo small. image_open p logo_path = Inr logo \<and>
               resize p logo (fst (im_size qr_img) div 3, fst (im_size qr_img) div 3) = Inr small \<and>
               paste p qr_img small
                 ((fst (im_size qr_img) - fst (im_size small)) div 2,
                  (snd (im_size qr_img) - snd (im_size small)) div 2) = Inl e)"
  shows "fst (logo_try p qr_img logo_path w1) = Inl e
       \<and> (e = FileNotFoundError \<longrightarrow>
            generate_qr_code p email subject logo_path body output_file w =
              output_stage p qr_img (output_path output_file)
                (emit (PrintCall logo_notice) (snd (logo_try p qr_img logo_path w1))))
       \<and> (e \<noteq> FileNotFoundError \<longrightarrow>
            generate_qr_code p email subject logo_path body output_file w =
              (Raised e, snd (logo_try p qr_img logo_path w1))
            \<and> files (snd (generate_qr_code p email subject logo_path body output_file w)) = files w
            \<and> filter is_save_call
                (new_events w (snd (generate_qr_code p email subject logo_path body output_file w))) = [])"
proof -
  from assms(2) have "\<exists>w'. logo_try p qr_img logo_path w1 = (Inl e, w')"
  proof (elim disjE exE conjE)
    assume "image_open p logo_path = Inl e"
    from logo_try_open_error [OF this] show ?thesis by blast
  next
    fix logo
    assume "image_open p logo_path = Inr logo"
      and "resize p logo (fst (im_size qr_img) div 3, fst (im_size qr_img) div 3) = Inl e"
    from logo_try_resize_error [OF this] show ?thesis by blast
  next
    fix logo small
    assume o: "image_open p logo_path = Inr logo"
      and r: "resize p logo (fst (im_size qr_img) div 3, fst (im_size qr_img) div 3) = Inr small"
      and "paste p qr_img small
                 ((fst (im_size qr_img) - fst (im_size small)) div 2,
                  (snd (im_size qr_img) - snd (im_size small)) div 2) = Inl e"
    with logo_try_paste [OF o r, of w1] show ?thesis by simp
  qed
  then obtain w' where t: "logo_try p qr_img logo_path w1 = (Inl e, w')" ..
  show ?thesis
  proof (cases "e = FileNotFoundError")
    case True
    then have "logo_stage p qr_img logo_path w1 = (Inr qr_img, emit (PrintCall logo_notice) w')"
      by (simp add: logo_stage_of_try [OF t])
    with True t show ?thesis
      by (simp add: generate_after_qr [OF assms(1)])
  next
    case False
    then have l: "logo_stage p qr_img logo_path w1 = (Inl e, w')"
      by (simp add: logo_stage_of_try [OF t])
    from False t show ?thesis
      by (simp add: generate_no_save(1) [OF assms(1) l] generate_no_save(2) [OF assms(1) l]
          generate_no_save(3) [OF assms(1) l])
  qed
qed

theorem C10_resize_raises_witness:
  "qr_stage vanishing_platform (email_link (lit ''x@y.com'') (lit ''S'') (Some (lit ''B''))) empty_world =
       (Inr (qr_image vanishing_platform short_link 6), empty_world\<lparr>events := events empty_world @ short_calls\<rparr>)
   \<and> image_open vanishing_platform (lit ''logo.png'') = Inr logo_image
   \<and> resize vanishing_platform logo_image
        (fst (im_size (qr_image vanishing_platform short_link 6)) div 3,
         fst (im_size (qr_image vanishing_platform short_link 6)) div 3) = Inl FileNotFoundError
   \<and> generate_qr_code vanishing_platform (lit ''x@y.com'') (lit ''S'') (lit ''logo.png'')
        (Some (lit ''B'')) None empty_world =
       output_stage vanishing_platform (qr_image vanishing_platform short_link 6) (output_path None)
         (emit (PrintCall logo_notice)
            (snd (logo_try vanishing_platform (qr_image vanishing_platform short_link 6)
                    (lit ''logo.png'') (empty_world\<lparr>events := events empty_world @ short_calls\<rparr>))))"
proof -
  let ?img = "qr_image vanishing_platform short_link 6"
  have h1: "qr_stage vanishing_platform (email_link (lit ''x@y.com'') (lit ''S'') (Some (lit ''B''))) empty_world =
       (Inr ?img, empty_world\<lparr>events := events empty_world @ short_calls\<rparr>)"
    by (simp only: short_link_eq short_stage)
  have o: "image_open vanishing_platform (lit ''logo.png'') = Inr logo_image"
    by (simp add: image_open_def vanishing_platform_def logo_platform_def)
  have r: "resize vanishing_platform logo_image (fst (im_size ?img) div 3, fst (im_size ?img) div 3) =
      Inl FileNotFoundError"
    by (simp add: resize_def vanishing_platform_def)
  have h2: "image_open vanishing_platform (lit ''logo.png'') = Inl FileNotFoundError
         \<or> (\<exists>logo. image_open vanishing_platform (lit ''logo.png'') = Inr logo \<and>
               resize vanishing_platform logo (fst (im_size ?img) div 3, fst (im_size ?img) div 3) = Inl FileNotFoundError)
         \<or> (\<exists>logo small. image_open vanishing_platform (lit ''logo.png'') = Inr logo \<and>
               resize vanishing_platform logo (fst (im_size ?img) div 3, fst (im_size ?img) div 3) = Inr small \<and>
               paste vanishing_platform ?img small
                 ((fst (im_size ?img) - fst (im_size small)) div 2,
                  (snd (im_size ?img) - snd (im_size small)) div 2) = Inl FileNotFoundError)"
    by (rule disjI2, rule disjI1, rule exI [of _ logo_image], rule conjI [OF o r])
  note c = C10_handler_covers_the_whole_try [OF h1 h2, where output_file = None]
  from c [THEN conjunct2, THEN conjunct1]
  have g: "generate_qr_code vanishing_platform (lit ''x@y.com'') (lit ''S'') (lit ''logo.png'')
        (Some (lit ''B'')) None empty_world =
       output_stage vanishing_platform ?img (output_path None)
         (emit (PrintCall logo_notice)
            (snd (logo_try vanishing_platform ?img
                    (lit ''logo.png'') (empty_world\<lparr>events := events empty_world @ short_calls\<rparr>))))"
    by simp
  show ?thesis by (intro conjI h1 o r g)
qed

text \<open>
  Claim C5. When the logo opens and \<open>resize\<close> and \<open>paste\<close> succeed, the logo is resized to
  the square of side \<open>W div 3\<close>, whatever its own shape, where \<open>(W, H)\<close> is the size of the QR
  image, and pasted with its upper left corner at \<open>((W - W div 3) div 2, (H - W div 3) div 2)\<close>:
  the margins left and right of it, and above and below it, differ by at most one pixel.
  The pasted image has the size \<open>(W, H)\<close> of the QR image, its pixels are the resized
  logo's inside that square and the QR image's outside, and it is the image that goes to
  the output stage.
\<close>

theorem C5_logo_is_a_centred_third:
  assumes "qr_stage p (email_link email subject body) w = (Inr qr_img, w1)"
    and "im_size qr_img = (W, H)"
    and "image_open p logo_path = Inr logo"
    and "resize p logo (W div 3, W div 3) = Inr small"
    and "paste p qr_img small ((W - W div 3) div 2, (H - W div 3) div 2) = Inr img"
  shows "generate_qr_code p email subject logo_path body output_file w =
           output_stage p img (output_path output_file)
             (w1\<lparr>events := events w1 @
                [OpenCall logo_path, ResizeCall (W div 3, W div 3),
                 PasteCall ((W - W div 3) div 2, (H - W div 3) div 2)]\<rparr>)
       \<and> im_size small = (W div 3, W div 3)
       \<and> im_size img = (W, H)
       \<and> im_mode img = im_mode qr_img
       \<and> (\<forall>x y. im_px img (x, y) =
            (if (W - W div 3) div 2 \<le> x \<and> x < (W - W div 3) div 2 + W div 3 \<and>
                (H - W div 3) div 2 \<le> y \<and> y < (H - W div 3) div 2 + W div 3
             then convert_px p (im_mode small) (im_mode qr_img)
                    (im_px small (x - (W - W div 3) div 2, y - (H - W div 3) div 2))
             else im_px qr_img (x, y)))
       \<and> (W - ((W - W div 3) div 2 + W div 3)) - (W - W div 3) div 2 \<in> {0, 1}
       \<and> (H - ((H - W div 3) div 2 + W div 3)) - (H - W div 3) div 2 \<in> {0, 1}"
proof -
  have sz: "im_size small = (W div 3, W div 3)"
    using resize_Inr [OF assms(4)] by simp
  have r: "resize p logo (fst (im_size qr_img) div 3, fst (im_size qr_img) div 3) = Inr small"
    using assms(2,4) by simp
  have t: "logo_try p qr_img logo_path w1 =
      (Inr img, w1\<lparr>events := events w1 @
                [OpenCall logo_path, ResizeCall (W div 3, W div 3),
                 PasteCall ((W - W div 3) div 2, (H - W div 3) div 2)]\<rparr>)"
    using logo_try_paste [OF assms(3) r, of w1] assms(2,5) sz by simp
  have g: "generate_qr_code p email subject logo_path body output_file w =
           output_stage p img (output_path output_file)
             (w1\<lparr>events := events w1 @
                [OpenCall logo_path, ResizeCall (W div 3, W div 3),
                 PasteCall ((W - W div 3) div 2, (H - W div 3) div 2)]\<rparr>)"
    by (simp add: generate_after_qr [OF assms(1)] logo_stage_of_try [OF t])
  have px: "\<forall>x y. im_px img (x, y) =
            (if (W - W div 3) div 2 \<le> x \<and> x < (W - W div 3) div 2 + W div 3 \<and>
                (H - W div 3) div 2 \<le> y \<and> y < (H - W div 3) div 2 + W div 3
             then convert_px p (im_mode small) (im_mode qr_img)
                    (im_px small (x - (W - W div 3) div 2, y - (H - W div 3) div 2))
             else im_px qr_img (x, y))"
    using paste_Inr(3) [OF assms(5)] sz by simp
  have cx: "(W - ((W - W div 3) div 2 + W div 3)) - (W - W div 3) div 2 \<in> {0, 1}"
    by (simp only: insert_iff empty_iff) presburger
  have cy: "(H - ((H - W div 3) div 2 + W div 3)) - (H - W div 3) div 2 \<in> {0, 1}"
    by (simp only: insert_iff empty_iff) presburger
  from paste_Inr(1,2) [OF assms(5)] assms(2)
  have "im_size img = (W, H)" "im_mode img = im_mode qr_img" by simp_all
  with g sz px cx cy show ?thesis by (intro conjI)
qed

theorem C5_stretched_logo_witness:
  "qr_stage logo_platform (email_link (lit ''x@y.com'') (lit ''S'') (Some (lit ''B''))) empty_world =
       (Inr (qr_image logo_platform short_link 6), empty_world\<lparr>events := events empty_world @ short_calls\<rparr>)
   \<and> im_size (qr_image logo_platform short_link 6) = (490, 490)
   \<and> image_open logo_platform (lit ''logo.png'') = Inr logo_image
   \<and> im_size logo_image = (200, 100)
   \<and> resize logo_platform logo_image (490 div 3, 490 div 3) = Inr small_logo
   \<and> paste logo_platform (qr_image logo_platform short_link 6) small_logo
        ((490 - 490 div 3) div 2, (490 - 490 div 3) div 2) = Inr stamped_image
   \<and> generate_qr_code logo_platform (lit ''x@y.com'') (lit ''S'') (lit ''logo.png'')
        (Some (lit ''B'')) (Some (lit ''out.png'')) empty_world =
       output_stage logo_platform stamped_image (output_path (Some (lit ''out.png'')))
         (empty_world\<lparr>events := events empty_world @ short_calls\<rparr>
            \<lparr>events := events (empty_world\<lparr>events := events empty_world @ short_calls\<rparr>) @
                [OpenCall (lit ''logo.png''), ResizeCall (490 div 3, 490 div 3),
                 PasteCall ((490 - 490 div 3) div 2, (490 - 490 div 3) div 2)]\<rparr>)
   \<and> im_size small_logo = (490 div 3, 490 div 3)
   \<and> im_size stamped_image = (490, 490)"
proof -
  let ?img = "qr_image logo_platform short_link 6"
  have h1: "qr_stage logo_platform (email_link (lit ''x@y.com'') (lit ''S'') (Some (lit ''B''))) empty_world =
       (Inr ?img, empty_world\<lparr>events := events empty_world @ short_calls\<rparr>)"
    by (simp only: short_link_eq short_stage)
  have h2: "im_size ?img = (490, 490)" by (simp add: qr_image_size)
  have h3: "image_open logo_platform (lit ''logo.png'') = Inr logo_image"
    by (simp add: image_open_def logo_platform_def)
  have l: "im_size logo_image = (200, 100)" by (simp add: logo_image_def)
  have h4: "resize logo_platform logo_image (490 div 3, 490 div 3) = Inr small_logo"
    by (simp add: resize_def logo_platform_def quiet_platform_def small_logo_def logo_image_def)
  have h5: "paste logo_platform ?img small_logo ((490 - 490 div 3) div 2, (490 - 490 div 3) div 2) =
      Inr stamped_image"
  proof -
    have pf: "paste_fault logo_platform ?img small_logo (163, 163) = None"
      by (simp add: logo_platform_def quiet_platform_def)
    have sm: "im_size small_logo = (163, 163)" "im_mode small_logo = ''RGB''"
      by (simp_all add: small_logo_def)
    have "?img\<lparr>im_px := (\<lambda>(x, y).
             if fst (163, 163) \<le> x \<and> x < fst (163, 163) + fst (im_size small_logo) \<and>
                snd (163, 163) \<le> y \<and> y < snd (163, 163) + snd (im_size small_logo)
             then convert_px logo_platform (im_mode small_logo) (im_mode ?img)
                    (im_px small_logo (x - fst (163, 163), y - snd (163, 163)))
             else im_px ?img (x, y))\<rparr> = stamped_image"
      unfolding stamped_image_def
      by (rule image.equality) (simp_all add: sm qr_image_size fun_eq_iff)
    then show ?thesis
      by (simp add: paste_def pf)
  qed
  note c = C5_logo_is_a_centred_third [OF h1 h2 h3 h4 h5, where output_file = "Some (lit ''out.png'')"]
  show ?thesis
    by (intro conjI h1 h2 h3 l h4 h5 c [THEN conjunct1] c [THEN conjunct2, THEN conjunct1]
        c [THEN conjunct2, THEN conjunct2, THEN conjunct1])
qed

text \<open>
  Claim C4, as the code has it. The QR code is constructed with version 6, error
  correction H, box size 10 and border 4. A payload without a UTF-8 encoding (a lone
  surrogate) makes \<open>add_data\<close> raise \<open>UnicodeEncodeError\<close>. For every other payload \<open>make\<close>
  is called with \<open>fit=True\<close>: version 6 is where the search for a version starts, not a
  fixed version. A payload that fits version 6 at level H is encoded at version 6, one
  that does not is encoded at the smallest version up to 40 that holds it, and only a
  payload that no version from 6 to 40 holds makes the library raise: the search result
  41 is refused by the version setter with \<open>ValueError\<close>, before the test that would raise
  \<open>DataOverflowError\<close>. Nothing in \<open>generate_qr_code\<close> handles an error of the QR stage:
  the run ends with it.
\<close>

theorem C4_version_6_starts_the_fit:
  "take 2 (new_events w (snd (generate_qr_code p email subject logo_path body output_file w))) =
     [QRCodeCall (Some 6) ERROR_CORRECT_H 10 4, AddDataCall (email_link email subject body)]
   \<and> (\<forall>e. to_bytestring (email_link email subject body) = Inl e \<longrightarrow>
        e = UnicodeEncodeError \<and>
        generate_qr_code p email subject logo_path body output_file w =
          (Raised e,
           w\<lparr>events := events w @
              [QRCodeCall (Some 6) ERROR_CORRECT_H 10 4, AddDataCall (email_link email subject body)]\<rparr>))
   \<and> (\<forall>bs. to_bytestring (email_link email subject body) = Inr bs \<longrightarrow>
        take 3 (new_events w (snd (generate_qr_code p email subject logo_path body output_file w))) =
          [QRCodeCall (Some 6) ERROR_CORRECT_H 10 4, AddDataCall (email_link email subject body), MakeCall True]
        \<and> ((\<forall>v. 6 \<le> v \<and> v \<le> 40 \<longrightarrow>
               \<not> fits_in BIT_LIMIT_TABLE_H (payload_chunks (email_link email subject body)) v) \<longrightarrow>
             generate_qr_code p email subject logo_path body output_file w =
               (Raised ValueError,
                w\<lparr>events := events w @
                   [QRCodeCall (Some 6) ERROR_CORRECT_H 10 4, AddDataCall (email_link email subject body),
                    MakeCall True]\<rparr>))
        \<and> (\<forall>v. 6 \<le> v \<and> v \<le> 40 \<and>
               fits_in BIT_LIMIT_TABLE_H (payload_chunks (email_link email subject body)) v \<and>
               (\<forall>u. 6 \<le> u \<and> u < v \<longrightarrow>
                  \<not> fits_in BIT_LIMIT_TABLE_H (payload_chunks (email_link email subject body)) u) \<longrightarrow>
             fst (qr_stage p (email_link email subject body) w) = Inr (qr_image p (email_link email subject body) v)))
   \<and> (\<forall>e. fst (qr_stage p (email_link email subject body) w) = Inl e \<longrightarrow>
        generate_qr_code p email subject logo_path body output_file w =
          (Raised e, snd (qr_stage p (email_link email subject body) w)))"
proof -
  let ?link = "email_link email subject body"
  let ?run = "generate_qr_code p email subject logo_path body output_file w"
  obtain rest where
    e: "new_events w (snd ?run) = new_events w (snd (qr_stage p ?link w)) @ rest"
    using generate_new_events by blast
  have a2: "take 2 (new_events w (snd ?run)) =
      [QRCodeCall (Some 6) ERROR_CORRECT_H 10 4, AddDataCall ?link]"
    by (rule generate_first_events)
  have d: "fst (qr_stage p ?link w) = Inl e \<longrightarrow> ?run = (Raised e, snd (qr_stage p ?link w))" for e
    by (cases "qr_stage p ?link w") (simp add: generate_qr_code_def)
  have u: "e = UnicodeEncodeError \<and>
      ?run = (Raised e, w\<lparr>events := events w @
              [QRCodeCall (Some 6) ERROR_CORRECT_H 10 4, AddDataCall ?link]\<rparr>)"
    if enc: "to_bytestring ?link = Inl e" for e
  proof -
    from enc have "qr_stage p ?link w = (Inl e, w\<lparr>events := events w @
              [QRCodeCall (Some 6) ERROR_CORRECT_H 10 4, AddDataCall ?link]\<rparr>)"
      by (simp add: qr_stage_eq)
    then have "?run = (Raised e, w\<lparr>events := events w @
              [QRCodeCall (Some 6) ERROR_CORRECT_H 10 4, AddDataCall ?link]\<rparr>)"
      by (simp add: generate_qr_code_def)
    with to_bytestring_Inl [OF enc] show ?thesis by simp
  qed
  have a3: "take 3 (new_events w (snd ?run)) =
      [QRCodeCall (Some 6) ERROR_CORRECT_H 10 4, AddDataCall ?link, MakeCall True]"
    if "to_bytestring ?link = Inr bs" for bs
    by (simp add: e qr_stage_new_events that)
  have b: "?run = (Raised ValueError,
               w\<lparr>events := events w @
                  [QRCodeCall (Some 6) ERROR_CORRECT_H 10 4, AddDataCall ?link, MakeCall True]\<rparr>)"
    if enc: "to_bytestring ?link = Inr bs"
      and none: "\<forall>v. 6 \<le> v \<and> v \<le> 40 \<longrightarrow> \<not> fits_in BIT_LIMIT_TABLE_H (payload_chunks ?link) v"
    for bs
  proof -
    from best_fit_none [OF none]
    have "qr_stage p ?link w = (Inl ValueError,
               w\<lparr>events := events w @
                  [QRCodeCall (Some 6) ERROR_CORRECT_H 10 4, AddDataCall ?link, MakeCall True]\<rparr>)"
      by (simp add: qr_stage_eq enc)
    then show ?thesis by (simp add: generate_qr_code_def)
  qed
  have c: "fst (qr_stage p ?link w) = Inr (qr_image p ?link v)"
    if enc: "to_bytestring ?link = Inr bs"
      and least: "6 \<le> v \<and> v \<le> 40 \<and> fits_in BIT_LIMIT_TABLE_H (payload_chunks ?link) v \<and>
        (\<forall>u. 6 \<le> u \<and> u < v \<longrightarrow> \<not> fits_in BIT_LIMIT_TABLE_H (payload_chunks ?link) u)"
    for bs v
  proof -
    from least have "best_fit BIT_LIMIT_TABLE_H (payload_chunks ?link) 6 = Inr v"
      by (intro best_fit_least) simp_all
    then show ?thesis by (simp add: qr_stage_eq enc)
  qed
  from a2 u a3 b c d show ?thesis by blast
qed

theorem C4_default_payload_witness:
  "to_bytestring (email_link (lit ''a@b.com'') (lit ''Hi'') None) = Inr default_link_bytes
   \<and> 6 \<le> (13::nat) \<and> (13::nat) \<le> 40
   \<and> fits_in BIT_LIMIT_TABLE_H (payload_chunks (email_link (lit ''a@b.com'') (lit ''Hi'') None)) 13
   \<and> \<not> fits_in BIT_LIMIT_TABLE_H (payload_chunks (email_link (lit ''a@b.com'') (lit ''Hi'') None)) 6
   \<and> \<not> fits_in BIT_LIMIT_TABLE_H (payload_chunks (email_link (lit ''a@b.com'') (lit ''Hi'') None)) 12
   \<and> take 3 (new_events empty_world
        (snd (generate_qr_code quiet_platform (lit ''a@b.com'') (lit ''Hi'') (lit ''missing.png'')
                None None empty_world))) =
       [QRCodeCall (Some 6) ERROR_CORRECT_H 10 4,
        AddDataCall (email_link (lit ''a@b.com'') (lit ''Hi'') None), MakeCall True]
   \<and> fst (qr_stage quiet_platform (email_link (lit ''a@b.com'') (lit ''Hi'') None) empty_world) =
       Inr (qr_image quiet_platform (email_link (lit ''a@b.com'') (lit ''Hi'') None) 13)"
proof -
  let ?link = "email_link (lit ''a@b.com'') (lit ''Hi'') None"
  have h: "to_bytestring ?link = Inr default_link_bytes"
    by (simp only: default_link_eq default_bytes)
  have bf: "best_fit BIT_LIMIT_TABLE_H (payload_chunks ?link) 6 = Inr 13"
    by (simp only: default_link_eq default_fit)
  note f = fitted_version_Inr(4,5) [OF bf]
  have r: "6 \<le> (13::nat)" "(13::nat) \<le> 40" by simp_all
  from f(2) have n6: "\<not> fits_in BIT_LIMIT_TABLE_H (payload_chunks ?link) 6"
    and n12: "\<not> fits_in BIT_LIMIT_TABLE_H (payload_chunks ?link) 12" by simp_all
  note c = C4_version_6_starts_the_fit [where p = quiet_platform and w = empty_world
      and email = "lit ''a@b.com''" and subject = "lit ''Hi''" and body = None
      and logo_path = "lit ''missing.png''" and output_file = None,
      THEN conjunct2, THEN conjunct2, THEN conjunct1, rule_format, OF h]
  from c [THEN conjunct2, THEN conjunct2, rule_format, of 13] r f
  have q: "fst (qr_stage quiet_platform ?link empty_world) = Inr (qr_image quiet_platform ?link 13)"
    by blast
  show ?thesis
    by (intro conjI h r f(1) n6 n12 c [THEN conjunct1] q)
qed

text \<open>
  Claim C4 as stated fails: the default payload for \<open>a@b.com\<close> and \<open>Hi\<close> does not fit
  version 6 at level H, \<open>make\<close> is called with \<open>fit=True\<close>, and the run returns instead of
  ending with a capacity error.
\<close>

theorem C4_fixed_version_counterexample:
  "\<not> fits_in BIT_LIMIT_TABLE_H (payload_chunks (email_link (lit ''a@b.com'') (lit ''Hi'') None)) 6
   \<and> new_events empty_world
       (snd (generate_qr_code quiet_platform (lit ''a@b.com'') (lit ''Hi'') (lit ''missing.png'')
               None None empty_world)) ! 2 = MakeCall True
   \<and> fst (generate_qr_code quiet_platform (lit ''a@b.com'') (lit ''Hi'') (lit ''missing.png'')
            None None empty_world) = Returned"
proof -
  have e: "events empty_world = []" by (simp add: empty_world_def)
  show ?thesis
    by (simp add: default_link_eq default_not_fits_6 default_run new_events_def e
        default_calls_def)
qed

text \<open>
  Claim C6, as the code has it. A run that returns has saved an RGB image that is square
  with \<open>(4 * v + 17 + 2 * 4) * 10\<close> pixels a side, where \<open>v\<close>, from 6 to 40, is the smallest
  version from 6 on that holds the payload at level H. The image is 490 by 490 exactly when
  the payload fits version 6.
\<close>

theorem C6_side_follows_the_fitted_version:
  assumes "fst (generate_qr_code p email subject logo_path body output_file w) = Returned"
  shows "map_option im_size
           (files (snd (generate_qr_code p email subject logo_path body output_file w))
              (output_path output_file)) =
           Some (int ((fitted_version (email_link email subject body) * 4 + 17 + 2 * 4) * 10),
                 int ((fitted_version (email_link email subject body) * 4 + 17 + 2 * 4) * 10))
       \<and> map_option im_mode
           (files (snd (generate_qr_code p email subject logo_path body output_file w))
              (output_path output_file)) = Some ''RGB''
       \<and> 6 \<le> fitted_version (email_link email subject body)
       \<and> fitted_version (email_link email subject body) \<le> 40
       \<and> fits_in BIT_LIMIT_TABLE_H (payload_chunks (email_link email subject body))
           (fitted_version (email_link email subject body))
       \<and> (\<forall>u. 6 \<le> u \<and> u < fitted_version (email_link email subject body) \<longrightarrow>
            \<not> fits_in BIT_LIMIT_TABLE_H (payload_chunks (email_link email subject body)) u)
       \<and> (map_option im_size
           (files (snd (generate_qr_code p email subject logo_path body output_file w))
              (output_path output_file)) = Some (490, 490)
          \<longleftrightarrow> fits_in BIT_LIMIT_TABLE_H (payload_chunks (email_link email subject body)) 6)"
proof -
  let ?link = "email_link email subject body"
  let ?run = "generate_qr_code p email subject logo_path body output_file w"
  let ?v = "fitted_version ?link"
  obtain r1 w1 where q: "qr_stage p ?link w = (r1, w1)" by (cases "qr_stage p ?link w")
  from assms q obtain qr_img where r1: "r1 = Inr qr_img"
    by (cases r1) (simp_all add: generate_qr_code_def)
  note q' = q [unfolded r1]
  note bf = qr_stage_Inr(1) [OF q']
  note v = fitted_version_Inr(2-5) [OF bf]
  have qi: "qr_img = qr_image p ?link ?v" by (rule qr_stage_Inr(2) [OF q'])
  obtain r2 w2 where l: "logo_stage p qr_img logo_path w1 = (r2, w2)"
    by (cases "logo_stage p qr_img logo_path w1")
  from assms l obtain img where r2: "r2 = Inr img"
    by (cases r2) (simp_all add: generate_after_qr [OF q'])
  note l' = l [unfolded r2]
  have g: "?run = output_stage p img (output_path output_file) w2"
    by (simp add: generate_after_qr [OF q'] l')
  from assms have "files (snd ?run) (output_path output_file) = Some img"
    unfolding g by (rule output_stage_Returned)
  moreover from logo_stage_keeps_size [OF l'] qi
  have "im_size img = (int ((?v * 4 + 17 + 2 * 4) * 10), int ((?v * 4 + 17 + 2 * 4) * 10))"
    and "im_mode img = ''RGB''"
    by (simp_all add: qr_image_size)
  ultimately have sz: "map_option im_size (files (snd ?run) (output_path output_file)) =
      Some (int ((?v * 4 + 17 + 2 * 4) * 10), int ((?v * 4 + 17 + 2 * 4) * 10))"
    and md: "map_option im_mode (files (snd ?run) (output_path output_file)) = Some ''RGB''"
    by simp_all
  have six: "?v = 6 \<longleftrightarrow> fits_in BIT_LIMIT_TABLE_H (payload_chunks ?link) 6"
  proof
    assume "?v = 6" with v(3) show "fits_in BIT_LIMIT_TABLE_H (payload_chunks ?link) 6" by simp
  next
    assume "fits_in BIT_LIMIT_TABLE_H (payload_chunks ?link) 6"
    with v(4) have "\<not> 6 < ?v" by auto
    with v(1) show "?v = 6" by simp
  qed
  have "(int ((?v * 4 + 17 + 2 * 4) * 10) = 490) \<longleftrightarrow> ?v = 6" by presburger
  with six have e: "map_option im_size (files (snd ?run) (output_path output_file)) = Some (490, 490)
      \<longleftrightarrow> fits_in BIT_LIMIT_TABLE_H (payload_chunks ?link) 6"
    unfolding sz by simp
  show ?thesis by (intro conjI sz md v e)
qed

theorem C6_short_payload_witness:
  "fst (generate_qr_code logo_platform (lit ''x@y.com'') (lit ''S'') (lit ''logo.png'')
          (Some (lit ''B'')) (Some (lit ''out.png'')) empty_world) = Returned
   \<and> fits_in BIT_LIMIT_TABLE_H (payload_chunks (email_link (lit ''x@y.com'') (lit ''S'') (Some (lit ''B'')))) 6
   \<and> map_option im_size
       (files (snd (generate_qr_code logo_platform (lit ''x@y.com'') (lit ''S'') (lit ''logo.png'')
          (Some (lit ''B'')) (Some (lit ''out.png'')) empty_world)) (output_path (Some (lit ''out.png'')))) =
       Some (490, 490)
   \<and> map_option im_mode
       (files (snd (generate_qr_code logo_platform (lit ''x@y.com'') (lit ''S'') (lit ''logo.png'')
          (Some (lit ''B'')) (Some (lit ''out.png'')) empty_world)) (output_path (Some (lit ''out.png'')))) =
       Some ''RGB''"
proof -
  let ?img = "qr_image logo_platform short_link 6"
  let ?w1 = "empty_world\<lparr>events := events empty_world @ short_calls\<rparr>"
  have q: "qr_stage logo_platform (email_link (lit ''x@y.com'') (lit ''S'') (Some (lit ''B''))) empty_world =
       (Inr ?img, ?w1)"
    by (simp only: short_link_eq short_stage)
  have o: "image_open logo_platform (lit ''logo.png'') = Inr logo_image"
    by (simp add: image_open_def logo_platform_def)
  have f: "resize_fault logo_platform img sz = None" "paste_fault logo_platform dst src box = None"
    "save_fault logo_platform img path = None" "show_fault logo_platform img = None"
    for img sz dst src box path
    by (simp_all add: logo_platform_def quiet_platform_def)
  have h: "fst (generate_qr_code logo_platform (lit ''x@y.com'') (lit ''S'') (lit ''logo.png'')
          (Some (lit ''B'')) (Some (lit ''out.png'')) empty_world) = Returned"
    by (simp add: generate_after_qr [OF q] logo_stage_def logo_try_def o resize_def paste_def f
        Let_def output_stage_eq)
  from fitted_version_Inr(4) [OF short_fit]
  have s: "fits_in BIT_LIMIT_TABLE_H (payload_chunks (email_link (lit ''x@y.com'') (lit ''S'') (Some (lit ''B'')))) 6"
    by (simp only: short_link_eq)
  note c = C6_side_follows_the_fitted_version [OF h]
  from c [THEN conjunct2, THEN conjunct2, THEN conjunct2, THEN conjunct2, THEN conjunct2,
      THEN conjunct2] s
  have sz: "map_option im_size
       (files (snd (generate_qr_code logo_platform (lit ''x@y.com'') (lit ''S'') (lit ''logo.png'')
          (Some (lit ''B'')) (Some (lit ''out.png'')) empty_world)) (output_path (Some (lit ''out.png'')))) =
       Some (490, 490)" by blast
  show ?thesis by (intro conjI h s sz c [THEN conjunct2, THEN conjunct1])
qed

text \<open>
  Claim C6 as stated fails: the run for \<open>a@b.com\<close> and \<open>Hi\<close> with the default body returns,
  and the image it saves is 770 by 770, the size of a version 13 symbol.
\<close>

theorem C6_default_payload_counterexample:
  "fst (generate_qr_code quiet_platform (lit ''a@b.com'') (lit ''Hi'') (lit ''missing.png'')
          None None empty_world) = Returned
   \<and> map_option im_size
       (files (snd (generate_qr_code quiet_platform (lit ''a@b.com'') (lit ''Hi'') (lit ''missing.png'')
          None None empty_world)) (lit ''email_qr.png'')) = Some (770, 770)
   \<and> map_option im_size
       (files (snd (generate_qr_code quiet_platform (lit ''a@b.com'') (lit ''Hi'') (lit ''missing.png'')
          None None empty_world)) (lit ''email_qr.png'')) \<noteq> Some (490, 490)"
  by (simp add: default_run qr_image_size)

end
